theory Spec2Isabelle
  imports Complex_Main
begin

section \<open>The threat-intelligence database generator\<close>

text \<open>
  A shallow embedding of \<^verbatim>\<open>scripts/generate_threat_intelligence_db.py\<close>.
  Python \<^verbatim>\<open>bytes\<close> and (ASCII-only) \<^verbatim>\<open>str\<close> values are both character
  lists: a HOL \<^typ>\<open>char\<close> is one byte, and every string the script builds is ASCII,
  so \<^verbatim>\<open>.encode('utf-8')\<close> maps each character to the byte of the same code.
  Python integers are \<^typ>\<open>int\<close>. Library calls that can raise return a sum type.
\<close>

subsection \<open>Bytes, errors and the sources of randomness\<close>

type_synonym bytes = string

datatype error = IndexError | ValueError | StructError

definition NUL :: char where
  "NUL = CHR 0x00"

definition newline :: char where
  "newline = CHR 0x0A"

definition encode :: "string \<Rightarrow> bytes" where
  "encode s = s"

text \<open>
  The pseudo-random generator behind the \<^verbatim>\<open>random\<close> module is a tape of raw draws
  with a read position; each library call takes the next draw and maps it into its
  range. Any sequence of results the library can produce is the image of some tape, so
  a statement for every tape covers every run.
\<close>

type_synonym rng = "(nat \<Rightarrow> nat) \<times> nat"

fun draw :: "rng \<Rightarrow> nat \<times> rng" where
  "draw (t, p) = (t p, (t, Suc p))"

definition random_choice :: "'a list \<Rightarrow> rng \<Rightarrow> error + ('a \<times> rng)" where
  "random_choice seq g =
     (if seq = [] then Inl IndexError
      else (case draw g of (r, g') \<Rightarrow> Inr (seq ! (r mod length seq), g')))"

definition random_randint :: "int \<Rightarrow> int \<Rightarrow> rng \<Rightarrow> error + (int \<times> rng)" where
  "random_randint a b g =
     (if b < a then Inl ValueError
      else (case draw g of (r, g') \<Rightarrow> Inr (a + int (r mod nat (b - a + 1)), g')))"

text \<open>
  \<^verbatim>\<open>random.random()\<close> is a double \<open>k / 2^53\<close> with \<open>0 \<le> k < 2^53\<close>; such a double
  and the two thresholds it is compared with are rationals, and the comparison of two
  doubles is the comparison of their values.
\<close>

definition random_random :: "rng \<Rightarrow> rat \<times> rng" where
  "random_random g =
     (case draw g of (r, g') \<Rightarrow> (of_nat (r mod 9007199254740992) / 9007199254740992, g'))"

definition double_0_3 :: rat where
  "double_0_3 = 5404319552844595 / 18014398509481984"

definition double_0_2 :: rat where
  "double_0_2 = 7205759403792794 / 36028797018963968"

text \<open>\<^verbatim>\<open>os.urandom(n)\<close> reads the next \<open>n\<close> bytes of an entropy tape.\<close>

type_synonym entropy = "(nat \<Rightarrow> char) \<times> nat"

fun os_urandom :: "int \<Rightarrow> entropy \<Rightarrow> error + (bytes \<times> entropy)" where
  "os_urandom n (t, p) =
     (if n < 0 then Inl ValueError
      else Inr (map t [p..<p + nat n], (t, p + nat n)))"

text \<open>\<^verbatim>\<open>str(n)\<close> for an integer, \<^verbatim>\<open>s.replace(old, new)\<close> for single characters.\<close>

fun str_nat :: "nat \<Rightarrow> string" where
  "str_nat n =
     (if n < 10 then [''0123456789'' ! n]
      else str_nat (n div 10) @ [''0123456789'' ! (n mod 10)])"

declare str_nat.simps [simp del]

definition str_int :: "int \<Rightarrow> string" where
  "str_int i = (if i < 0 then CHR ''-'' # str_nat (nat (- i)) else str_nat (nat i))"

definition str_replace :: "char \<Rightarrow> char \<Rightarrow> string \<Rightarrow> string" where
  "str_replace old new s = map (\<lambda>c. if c = old then new else c) s"

text \<open>\<^verbatim>\<open>struct.pack("<Q", n)\<close>: eight bytes, least significant first.\<close>

definition struct_pack_Q :: "int \<Rightarrow> error + bytes" where
  "struct_pack_Q n =
     (if 0 \<le> n \<and> n < 2 ^ 64 then Inr (map (\<lambda>i. char_of (n div 256 ^ i)) [0..<8])
      else Inl StructError)"

subsection \<open>The output file\<close>

text \<open>
  A file opened with mode \<^verbatim>\<open>'wb'\<close>: it starts empty with the position at 0, and
  \<^verbatim>\<open>f.write(data)\<close> stores \<open>data\<close> at the position (zero-filling a gap, overwriting
  what is there) and advances the position.
\<close>

record outfile =
  contents :: bytes
  pos :: nat

definition open_wb :: outfile where
  "open_wb = \<lparr>contents = [], pos = 0\<rparr>"

definition fwrite :: "bytes \<Rightarrow> outfile \<Rightarrow> outfile" where
  "fwrite d f =
     \<lparr>contents =
        take (pos f) (contents f @ replicate (pos f - length (contents f)) NUL)
        @ d @ drop (pos f + length d) (contents f),
      pos = pos f + length d\<rparr>"

subsection \<open>Constants of the script\<close>

definition TARGET_SIZE_BYTES :: int where
  "TARGET_SIZE_BYTES = 750 * 1024 * 1024"

definition COUNTRY_PREFIXES :: "string list" where
  "COUNTRY_PREFIXES =
     [''234'', ''233'', ''225'', ''221'', ''880'', ''92'', ''91'', ''63'', ''855'',
      ''856'', ''95'', ''66'', ''84'', ''62'', ''60'', ''81'', ''82'', ''98'', ''966'',
      ''971'', ''20'', ''27'', ''254'', ''237'', ''212'', ''351'', ''34'', ''39'',
      ''33'', ''49'', ''31'', ''32'', ''48'', ''358'', ''353'', ''44'', ''61'', ''64'',
      ''65'', ''55'', ''52'', ''57'', ''58'', ''54'', ''51'', ''56'', ''46'', ''47'',
      ''421'', ''86'', ''7'', ''380'', ''90'', ''81'', ''82'', ''66'', ''84'', ''65'',
      ''60'', ''63'']"

definition DOMAIN_PATTERNS :: "string list" where
  "DOMAIN_PATTERNS =
     [''paypal'', ''amazon'', ''google'', ''microsoft'', ''apple'', ''netflix'',
      ''bank'', ''secure'', ''login'', ''verify'', ''account'', ''support'',
      ''official'', ''gov'', ''irs'', ''hmrc'', ''fedex'', ''ups'', ''dhl'', ''usps'',
      ''royal-mail'', ''customs'', '' bitcoin'', ''crypto'', ''wallet'',
      ''investment'', ''refund'', ''prize'']"

definition tlds :: "string list" where
  "tlds =
     [''.com'', ''.net'', ''.org'', ''.tk'', ''.ml'', ''.ga'', ''.xyz'', ''.top'',
      ''.click'']"

definition subdomains :: "string list" where
  "subdomains =
     ['''', ''secure-'', ''login-'', ''verify-'', ''account-'', ''support-'']"

definition phrases :: "string list" where
  "phrases =
     [''otp'', ''verification code'', ''account locked'', ''urgent'', ''click here'',
      ''congratulations'', ''you have won'', ''claim your'', ''free gift'', ''bank'',
      ''pay now'', ''send money'', ''wire transfer'', ''bitcoin'', ''crypto'',
      ''refund'', ''overcharge'', ''verify'', ''confirm'', ''suspended'', ''expires'']"

subsection \<open>The record loops\<close>

text \<open>
  The three record generators share one loop:
  \<^verbatim>\<open>for i in range(count): record = ...; f.write(record); written += len(record)\<close>.
  The function below runs it for a given way of building one record.
\<close>

primrec write_records ::
  "(rng \<Rightarrow> error + (bytes \<times> rng)) \<Rightarrow> nat \<Rightarrow> int \<Rightarrow> rng \<Rightarrow> outfile
     \<Rightarrow> error + (int \<times> rng \<times> outfile)" where
  "write_records build 0 written g f = Inr (written, g, f)"
| "write_records build (Suc n) written g f =
     (case build g of
        Inl err \<Rightarrow> Inl err
      | Inr (record, g') \<Rightarrow>
          write_records build n (written + int (length record)) g' (fwrite record f))"

subsection \<open>Phone patterns\<close>

text \<open>\<^verbatim>\<open>''.join(str(random.randint(0, 9)) for _ in range(suffix_len))\<close>\<close>

primrec random_digits :: "nat \<Rightarrow> rng \<Rightarrow> error + (string \<times> rng)" where
  "random_digits 0 g = Inr ([], g)"
| "random_digits (Suc n) g =
     (case random_randint 0 9 g of
        Inl err \<Rightarrow> Inl err
      | Inr (d, g') \<Rightarrow>
          (case random_digits n g' of
             Inl err \<Rightarrow> Inl err
           | Inr (s, g'') \<Rightarrow> Inr (str_int d @ s, g'')))"

definition phone_suffix :: "int \<Rightarrow> rng \<Rightarrow> error + (string \<times> rng)" where
  "phone_suffix suffix_len g =
     (case random_random g of
        (x, g) \<Rightarrow>
          if x < double_0_3 then
            (case random_randint 0 9 g of
               Inl err \<Rightarrow> Inl err
             | Inr (d, g) \<Rightarrow>
                 (let digit = str_int d in Inr (concat (replicate (nat suffix_len) digit), g)))
          else random_digits (nat suffix_len) g)"

definition phone_record :: "rng \<Rightarrow> error + (bytes \<times> rng)" where
  "phone_record g =
     (case random_choice COUNTRY_PREFIXES g of
        Inl err \<Rightarrow> Inl err
      | Inr (prefix, g) \<Rightarrow>
          (case random_randint 6 12 g of
             Inl err \<Rightarrow> Inl err
           | Inr (suffix_len, g) \<Rightarrow>
               (case phone_suffix suffix_len g of
                  Inl err \<Rightarrow> Inl err
                | Inr (suffix, g) \<Rightarrow>
                    (let pattern = prefix @ suffix;
                         record = encode (''PHONE:'' @ pattern @ [newline])
                     in Inr (record, g)))))"

definition generate_phone_patterns ::
  "int \<Rightarrow> rng \<Rightarrow> outfile \<Rightarrow> error + (int \<times> rng \<times> outfile)" where
  "generate_phone_patterns count g f = write_records phone_record (nat count) 0 g f"

subsection \<open>Domain patterns\<close>

definition domain_record :: "rng \<Rightarrow> error + (bytes \<times> rng)" where
  "domain_record g =
     (case random_choice DOMAIN_PATTERNS g of
        Inl err \<Rightarrow> Inl err
      | Inr (base, g) \<Rightarrow>
          (case random_random g of
             (x, g) \<Rightarrow>
               (let base =
                      (if x < double_0_2 then
                         str_replace (CHR ''a'') (CHR ''4'')
                           (str_replace (CHR ''l'') (CHR ''1'')
                              (str_replace (CHR ''o'') (CHR ''0'') base))
                       else base)
                in case random_choice tlds g of
                     Inl err \<Rightarrow> Inl err
                   | Inr (tld, g) \<Rightarrow>
                       (case random_choice subdomains g of
                          Inl err \<Rightarrow> Inl err
                        | Inr (sub, g) \<Rightarrow>
                            (case random_randint 1 999 g of
                               Inl err \<Rightarrow> Inl err
                             | Inr (n, g) \<Rightarrow>
                                 (let domain = sub @ base @ str_int n @ tld;
                                      record = encode (''DOMAIN:'' @ domain @ [newline])
                                  in Inr (record, g)))))))"

definition generate_domain_patterns ::
  "int \<Rightarrow> rng \<Rightarrow> outfile \<Rightarrow> error + (int \<times> rng \<times> outfile)" where
  "generate_domain_patterns count g f = write_records domain_record (nat count) 0 g f"

subsection \<open>Phrase signatures\<close>

text \<open>
  \<^verbatim>\<open>hashlib.sha256(b).digest()\<close> is a parameter \<open>sha256\<close> of the model: the
  library function is not part of the script.
\<close>

definition phrase_hash :: "(bytes \<Rightarrow> bytes) \<Rightarrow> string \<Rightarrow> bytes" where
  "phrase_hash sha256 s = take 16 (sha256 (encode s))"

definition signature_record :: "(bytes \<Rightarrow> bytes) \<Rightarrow> rng \<Rightarrow> error + (bytes \<times> rng)" where
  "signature_record sha256 g =
     (case random_choice phrases g of
        Inl err \<Rightarrow> Inl err
      | Inr (p, g) \<Rightarrow>
          (case random_randint 1000 99999 g of
             Inl err \<Rightarrow> Inl err
           | Inr (n, g) \<Rightarrow>
               (let phrase = p @ ''_'' @ str_int n;
                    sig = phrase_hash sha256 phrase;
                    record = ''SIG:'' @ sig @ [newline]
                in Inr (record, g))))"

definition generate_phrase_signatures ::
  "(bytes \<Rightarrow> bytes) \<Rightarrow> int \<Rightarrow> rng \<Rightarrow> outfile \<Rightarrow> error + (int \<times> rng \<times> outfile)" where
  "generate_phrase_signatures sha256 count g f =
     write_records (signature_record sha256) (nat count) 0 g f"

subsection \<open>Metadata blocks\<close>

definition block_size :: int where
  "block_size = 4096"

text \<open>One iteration of the \<^verbatim>\<open>while\<close> loop of \<^verbatim>\<open>generate_metadata_blocks\<close>.\<close>

definition metadata_body ::
  "int \<Rightarrow> int \<Rightarrow> entropy \<Rightarrow> outfile \<Rightarrow> error + (int \<times> entropy \<times> outfile)" where
  "metadata_body remaining written e f =
     (let to_write = min (block_size - 6) (remaining - written) in
      case os_urandom to_write e of
        Inl err \<Rightarrow> Inl err
      | Inr (rnd, e') \<Rightarrow>
          (let block = ''META:'' @ rnd in
           Inr (written + (int (length block) + 1), e', fwrite (block @ [newline]) f)))"

function metadata_loop ::
  "int \<Rightarrow> int \<Rightarrow> entropy \<Rightarrow> outfile \<Rightarrow> error + (int \<times> entropy \<times> outfile)" where
  "metadata_loop remaining written e f =
     (if written < remaining then
        (case metadata_body remaining written e f of
           Inl err \<Rightarrow> Inl err
         | Inr (written', e', f') \<Rightarrow> metadata_loop remaining written' e' f')
      else Inr (written, e, f))"
  by pat_completeness auto
termination
  by (relation "measure (\<lambda>(remaining, written, e, f). nat (remaining - written))")
     (auto simp: metadata_body_def Let_def split: if_splits prod.splits)

declare metadata_loop.simps [simp del]

definition generate_metadata_blocks ::
  "int \<Rightarrow> entropy \<Rightarrow> outfile \<Rightarrow> error + (int \<times> entropy \<times> outfile)" where
  "generate_metadata_blocks remaining e f = metadata_loop remaining 0 e f"

subsection \<open>The driver\<close>

text \<open>
  The body of \<^verbatim>\<open>main\<close> under \<^verbatim>\<open>with open(output_path, 'wb') as f\<close>. The result
  is the final value of \<^verbatim>\<open>total\<close> and the file as it is closed; the progress
  lines and the exit code 0 are left out.
\<close>

definition main ::
  "(bytes \<Rightarrow> bytes) \<Rightarrow> rng \<Rightarrow> entropy \<Rightarrow> error + (int \<times> outfile)" where
  "main sha256 g e =
     (let total = 0; f = open_wb in
      case struct_pack_Q 0 of
        Inl err \<Rightarrow> Inl err
      | Inr packed \<Rightarrow>
          (let header = ''DFS_THREAT_DB_V1'' @ [NUL] @ packed;
               f = fwrite header f;
               phone_count = 2500000
           in case generate_phone_patterns phone_count g f of
                Inl err \<Rightarrow> Inl err
              | Inr (n, g, f) \<Rightarrow>
                  (let total = total + n;
                       domain_count = 2500000
                   in case generate_domain_patterns domain_count g f of
                        Inl err \<Rightarrow> Inl err
                      | Inr (n, g, f) \<Rightarrow>
                          (let total = total + n;
                               sig_count = 6500000
                           in case generate_phrase_signatures sha256 sig_count g f of
                                Inl err \<Rightarrow> Inl err
                              | Inr (n, g, f) \<Rightarrow>
                                  (let total = total + n;
                                       remaining = TARGET_SIZE_BYTES - total
                                   in if remaining > 0 then
                                        (case generate_metadata_blocks remaining e f of
                                           Inl err \<Rightarrow> Inl err
                                         | Inr (n, e, f) \<Rightarrow> Inr (total + n, f))
                                      else Inr (total, f))))))"

subsection \<open>Notions used in the statements\<close>

text \<open>
  \<open>at_end f\<close>: the position is the end of the file, as it is for a file that was
  opened for writing and never repositioned. \<open>appended f d\<close> is \<open>f\<close> with \<open>d\<close>
  added at its end.
\<close>

definition at_end :: "outfile \<Rightarrow> bool" where
  "at_end f = (pos f = length (contents f))"

definition appended :: "outfile \<Rightarrow> bytes \<Rightarrow> outfile" where
  "appended f d = \<lparr>contents = contents f @ d, pos = length (contents f) + length d\<rparr>"

text \<open>A metadata block holding \<open>k\<close> bytes of the entropy tape \<open>t\<close> from position \<open>p\<close>.\<close>

definition meta_block :: "(nat \<Rightarrow> char) \<Rightarrow> nat \<Rightarrow> nat \<Rightarrow> bytes" where
  "meta_block t p k = ''META:'' @ map t [p..<p + k] @ [newline]"

text \<open>
  What the metadata loop adds when \<open>d > 0\<close> bytes remain: full blocks of 4096 bytes
  while at least 4090 bytes remain, then one block of the rest plus 6.
\<close>

definition fill_total :: "int \<Rightarrow> int" where
  "fill_total d =
     (if d mod 4096 = 0 then d
      else if d mod 4096 \<le> 4090 then d + 6
      else d + (4096 - d mod 4096))"

text \<open>Sample tapes and a stand-in digest of the right length, for concrete runs.\<close>

definition sample_tape :: "nat \<Rightarrow> nat" where
  "sample_tape i = 3002399751580331 * i + 3"

definition sample_entropy :: "nat \<Rightarrow> char" where
  "sample_entropy i = ''0123456789abcdef'' ! (i mod 16)"

definition sample_digest :: "bytes \<Rightarrow> bytes" where
  "sample_digest b = replicate 32 (CHR ''#'')"

text \<open>
  The tape of draws that are all 0, and what the script writes on it (with
  \<open>sample_digest\<close> and \<open>sample_entropy\<close>): 2,500,000 equal phone records, 2,500,000
  equal domain records, 6,500,000 equal signature records, then 137,312 full metadata
  blocks and a last block of 2048 random bytes.
\<close>

definition zero_tape :: "nat \<Rightarrow> nat" where
  "zero_tape i = 0"

definition zero_run_records :: bytes where
  "zero_run_records =
     concat (replicate 2500000 (''PHONE:234000000'' @ [newline])) @
     concat (replicate 2500000 (''DOMAIN:p4yp411.com'' @ [newline])) @
     concat (replicate 6500000 (''SIG:################'' @ [newline]))"

definition zero_run_full_blocks :: "bytes list" where
  "zero_run_full_blocks = map (\<lambda>i. meta_block sample_entropy (4090 * i) 4090) [0..<137312]"

definition zero_run_blocks :: "bytes list" where
  "zero_run_blocks = zero_run_full_blocks @ [meta_block sample_entropy 561606080 2048]"

section \<open>Properties\<close>

subsection \<open>Writing at the end of the file\<close>

lemma fwrite_at_end: "at_end f \<Longrightarrow> fwrite d f = appended f d"
  by (simp add: at_end_def fwrite_def appended_def)

lemma at_end_appended: "at_end (appended f d)"
  by (simp add: at_end_def appended_def)

lemma appended_appended: "appended (appended f a) b = appended f (a @ b)"
  by (simp add: appended_def)

lemma appended_Nil: "at_end f \<Longrightarrow> appended f [] = f"
  by (simp add: appended_def at_end_def)

lemma fold_fwrite_at_end: "at_end f \<Longrightarrow> fold fwrite bs f = appended f (concat bs)"
proof (induction bs arbitrary: f)
  case Nil
  then show ?case by (simp add: appended_Nil)
next
  case (Cons b bs)
  have "fold fwrite (b # bs) f = fold fwrite bs (appended f b)"
    using Cons.prems by (simp add: fwrite_at_end)
  also have "\<dots> = appended (appended f b) (concat bs)"
    by (rule Cons.IH) (rule at_end_appended)
  finally show ?case by (simp add: appended_appended)
qed

lemma length_meta_block: "length (meta_block t p k) = k + 6"
  by (simp add: meta_block_def)

lemma metadata_body_eq:
  "written < remaining \<Longrightarrow>
   metadata_body remaining written (t, p) f =
     Inr (written + (min 4090 (remaining - written) + 6),
          (t, p + nat (min 4090 (remaining - written))),
          fwrite (meta_block t p (nat (min 4090 (remaining - written)))) f)"
  by (simp add: metadata_body_def block_size_def Let_def meta_block_def min_def)

lemma metadata_loop_step:
  "written < remaining \<Longrightarrow>
   metadata_loop remaining written (t, p) f =
     metadata_loop remaining (written + (min 4090 (remaining - written) + 6))
       (t, p + nat (min 4090 (remaining - written)))
       (fwrite (meta_block t p (nat (min 4090 (remaining - written)))) f)"
  by (subst metadata_loop.simps) (simp add: metadata_body_eq)

lemma metadata_loop_stop:
  "\<not> written < remaining \<Longrightarrow> metadata_loop remaining written e f = Inr (written, e, f)"
  by (subst metadata_loop.simps) simp

lemma fill_total_small: "0 < d \<Longrightarrow> d < 4090 \<Longrightarrow> fill_total d = d + 6"
  by (simp add: fill_total_def)

lemma fill_total_mid: "4090 \<le> d \<Longrightarrow> d \<le> 4096 \<Longrightarrow> fill_total d = 4096"
  by (cases "d = 4096") (simp_all add: fill_total_def)

lemma fill_total_big: "fill_total d = 4096 + fill_total (d - 4096)"
  by (simp add: fill_total_def)

lemma metadata_step_total:
  assumes "written < remaining"
  defines "w' \<equiv> written + (min 4090 (remaining - written) + 6)"
  shows "(if w' < remaining then w' + fill_total (remaining - w') else w')
        = written + fill_total (remaining - written)"
proof -
  consider "remaining - written < 4090"
    | "4090 \<le> remaining - written" "remaining - written \<le> 4096"
    | "4096 < remaining - written" by linarith
  then show ?thesis
  proof cases
    case 1
    with assms(1) show ?thesis by (simp add: w'_def fill_total_small)
  next
    case 2
    with assms(1) show ?thesis by (simp add: w'_def fill_total_mid)
  next
    case 3
    have w': "w' = written + 4096" using 3 by (simp add: w'_def)
    have "fill_total (remaining - written) = 4096 + fill_total (remaining - written - 4096)"
      by (rule fill_total_big)
    also have "remaining - written - 4096 = remaining - w'" by (simp add: w')
    finally have "fill_total (remaining - written) = 4096 + fill_total (remaining - w')" .
    moreover have "w' < remaining" using 3 by (simp add: w')
    ultimately show ?thesis by (simp add: w')
  qed
qed

text \<open>The loop, unrolled: the blocks it writes and the tape position it reaches.\<close>

lemma metadata_loop_blocks:
  "\<exists>blocks p'.
     metadata_loop remaining written (t, p) f =
       Inr (written + int (length (concat blocks)), (t, p'), fold fwrite blocks f) \<and>
     written + int (length (concat blocks)) =
       (if written < remaining then written + fill_total (remaining - written) else written) \<and>
     (\<forall>b \<in> set blocks. \<exists>k q. b = meta_block t q k \<and> 1 \<le> k \<and> k \<le> 4090)"
proof (induction "nat (remaining - written)" arbitrary: written p f rule: less_induct)
  case less
  show ?case
  proof (cases "written < remaining")
    case False
    have "metadata_loop remaining written (t, p) f =
        Inr (written + int (length (concat ([] :: bytes list))), (t, p), fold fwrite [] f)"
      using False by (simp add: metadata_loop_stop)
    with False show ?thesis by fastforce
  next
    case True
    define k where "k = nat (min 4090 (remaining - written))"
    define w' where "w' = written + (min 4090 (remaining - written) + 6)"
    have k: "1 \<le> k" "k \<le> 4090" "int k = min 4090 (remaining - written)"
      using True unfolding k_def min_def by (simp_all; linarith)+
    have dec: "nat (remaining - w') < nat (remaining - written)"
      using True by (simp add: w'_def min_def)
    from less [OF dec, of "p + k" "fwrite (meta_block t p k) f"]
    obtain blocks p' where
      run: "metadata_loop remaining w' (t, p + k) (fwrite (meta_block t p k) f) =
              Inr (w' + int (length (concat blocks)), (t, p'),
                   fold fwrite blocks (fwrite (meta_block t p k) f))"
      and tot: "w' + int (length (concat blocks)) =
              (if w' < remaining then w' + fill_total (remaining - w') else w')"
      and shape: "\<forall>b \<in> set blocks. \<exists>k q. b = meta_block t q k \<and> 1 \<le> k \<and> k \<le> 4090"
      by blast
    let ?bs = "meta_block t p k # blocks"
    have len: "written + int (length (concat ?bs)) = w' + int (length (concat blocks))"
      using k(3) by (simp add: w'_def length_meta_block)
    have "metadata_loop remaining written (t, p) f =
        metadata_loop remaining w' (t, p + k) (fwrite (meta_block t p k) f)"
      unfolding w'_def k_def by (rule metadata_loop_step [OF True])
    with run len have 1: "metadata_loop remaining written (t, p) f =
        Inr (written + int (length (concat ?bs)), (t, p'), fold fwrite ?bs f)"
      by simp
    have 2: "written + int (length (concat ?bs)) =
        (if written < remaining then written + fill_total (remaining - written) else written)"
      using len tot metadata_step_total [OF True] True unfolding w'_def by simp
    have 3: "\<forall>b \<in> set ?bs. \<exists>k q. b = meta_block t q k \<and> 1 \<le> k \<and> k \<le> 4090"
      using shape k(1,2) by auto
    from 1 2 3 show ?thesis by blast
  qed
qed

lemma at_end_open_wb: "at_end open_wb"
  by (simp add: at_end_def open_wb_def)

lemma fill_total_le: "0 < d \<Longrightarrow> fill_total d \<le> d + 6"
proof -
  have b: "d mod 4096 < 4096" by simp
  consider "d mod 4096 = 0" | "d mod 4096 \<noteq> 0" "d mod 4096 \<le> 4090" | "4090 < d mod 4096"
    by linarith
  then show ?thesis
  proof cases
    case 3
    then have "fill_total d = d + (4096 - d mod 4096)" by (simp add: fill_total_def)
    with 3 show ?thesis by linarith
  qed (simp_all add: fill_total_def)
qed

lemma fill_total_ge: "d \<le> fill_total d"
proof -
  have "d mod 4096 < 4096" by simp
  then have "0 \<le> 4096 - d mod 4096" by linarith
  then show ?thesis by (simp add: fill_total_def)
qed

lemma length_concat_ge:
  "(\<And>b. b \<in> set bs \<Longrightarrow> c \<le> length b) \<Longrightarrow> c * length bs \<le> length (concat bs)"
proof (induction bs)
  case Nil
  then show ?case by simp
next
  case (Cons b bs)
  have "c \<le> length b" by (rule Cons.prems) simp
  moreover have "c * length bs \<le> length (concat bs)"
    by (rule Cons.IH) (simp add: Cons.prems)
  ultimately show ?case by simp
qed

subsection \<open>The metadata filler\<close>

text \<open>
  Claim C1, as amended. For every \<open>remaining > 0\<close>, \<open>generate_metadata_blocks\<close> appends
  META blocks to the file and returns the number of bytes it appended. That number is
  \<open>remaining\<close> exactly when \<open>remaining\<close> is a multiple of 4096; otherwise it is
  \<open>remaining + 6\<close> when \<open>remaining mod 4096 \<le> 4090\<close>, and the next multiple of 4096
  when \<open>remaining mod 4096 > 4090\<close>: the payload of the last block is cut to the bytes
  that remain, and its tag and newline come on top.
\<close>

theorem metadata_fill_closed_form:
  assumes "0 < remaining" and "at_end f"
  shows "\<exists>blocks p'.
     generate_metadata_blocks remaining (t, p) f =
       Inr (int (length (concat blocks)), (t, p'), appended f (concat blocks)) \<and>
     int (length (concat blocks)) =
       (if remaining mod 4096 = 0 then remaining
        else if remaining mod 4096 \<le> 4090 then remaining + 6
        else remaining + (4096 - remaining mod 4096))"
proof -
  from metadata_loop_blocks [of remaining 0 t p f] obtain blocks p' where
    run: "metadata_loop remaining 0 (t, p) f =
            Inr (0 + int (length (concat blocks)), (t, p'), fold fwrite blocks f)"
    and tot: "0 + int (length (concat blocks)) =
            (if 0 < remaining then 0 + fill_total (remaining - 0) else 0)"
    by blast
  from tot assms(1) have "int (length (concat blocks)) = fill_total remaining"
    by simp
  moreover from run assms(2) have "generate_metadata_blocks remaining (t, p) f =
      Inr (int (length (concat blocks)), (t, p'), appended f (concat blocks))"
    by (simp add: generate_metadata_blocks_def fold_fwrite_at_end)
  ultimately show ?thesis
    unfolding fill_total_def by blast
qed

theorem metadata_fill_closed_form_witness:
  "(0::int) < 5 \<and> at_end open_wb \<and>
   generate_metadata_blocks 5 (sample_entropy, 0) open_wb =
     Inr (11, (sample_entropy, 5), \<lparr>contents = ''META:01234'' @ [newline], pos = 11\<rparr>)"
  using metadata_fill_closed_form [of 5 open_wb sample_entropy 0]
  by (simp add: generate_metadata_blocks_def metadata_loop_step metadata_loop_stop
      meta_block_def fwrite_def open_wb_def sample_entropy_def at_end_def upt_conv_Cons)

text \<open>
  Claim C1 as stated fails: with one byte remaining the filler writes a block of seven
  bytes and returns 7, not 1.
\<close>

theorem metadata_fill_exact_counterexample:
  "generate_metadata_blocks 1 (sample_entropy, 0) open_wb =
     Inr (7, (sample_entropy, 1), \<lparr>contents = ''META:0'' @ [newline], pos = 7\<rparr>) \<and>
   (7::int) \<noteq> 1"
  by (simp add: generate_metadata_blocks_def metadata_loop_step metadata_loop_stop
      meta_block_def fwrite_def open_wb_def sample_entropy_def)

text \<open>
  Claim C9. For every \<open>remaining > 0\<close>, \<open>generate_metadata_blocks\<close> returns at most
  \<open>remaining + 6\<close>; it returns exactly \<open>remaining + 6\<close> whenever \<open>remaining < 4090\<close>, so
  the bound is reached; and every block it writes (tag, data and newline) has at most
  4096 bytes.
\<close>

theorem metadata_overshoot_bound:
  assumes "0 < remaining"
  shows "\<exists>blocks p'.
     generate_metadata_blocks remaining (t, p) f =
       Inr (int (length (concat blocks)), (t, p'), fold fwrite blocks f) \<and>
     int (length (concat blocks)) \<le> remaining + 6 \<and>
     (remaining < 4090 \<longrightarrow> int (length (concat blocks)) = remaining + 6) \<and>
     (\<forall>b \<in> set blocks. \<exists>d. b = ''META:'' @ d @ [newline] \<and> length b \<le> 4096)"
proof -
  from metadata_loop_blocks [of remaining 0 t p f] obtain blocks p' where
    run: "metadata_loop remaining 0 (t, p) f =
            Inr (0 + int (length (concat blocks)), (t, p'), fold fwrite blocks f)"
    and tot: "0 + int (length (concat blocks)) =
            (if 0 < remaining then 0 + fill_total (remaining - 0) else 0)"
    and shape: "\<forall>b \<in> set blocks. \<exists>k q. b = meta_block t q k \<and> 1 \<le> k \<and> k \<le> 4090"
    by blast
  from tot assms have len: "int (length (concat blocks)) = fill_total remaining"
    by simp
  have 1: "generate_metadata_blocks remaining (t, p) f =
      Inr (int (length (concat blocks)), (t, p'), fold fwrite blocks f)"
    using run by (simp add: generate_metadata_blocks_def)
  have 2: "int (length (concat blocks)) \<le> remaining + 6"
    using len fill_total_le [OF assms] by simp
  have 3: "remaining < 4090 \<longrightarrow> int (length (concat blocks)) = remaining + 6"
    using len assms by (simp add: fill_total_small)
  have 4: "\<forall>b \<in> set blocks. \<exists>d. b = ''META:'' @ d @ [newline] \<and> length b \<le> 4096"
  proof
    fix b assume "b \<in> set blocks"
    with shape obtain k q where "b = meta_block t q k" "k \<le> 4090" by blast
    then have "b = ''META:'' @ map t [q..<q + k] @ [newline] \<and> length b \<le> 4096"
      by (simp add: meta_block_def)
    then show "\<exists>d. b = ''META:'' @ d @ [newline] \<and> length b \<le> 4096" by blast
  qed
  from 1 2 3 4 show ?thesis by blast
qed

theorem metadata_overshoot_bound_witness:
  "(0::int) < 4 \<and>
   generate_metadata_blocks 4 (sample_entropy, 3) open_wb =
     Inr (10, (sample_entropy, 7), fold fwrite [''META:3456'' @ [newline]] open_wb) \<and>
   (10::int) \<le> 4 + 6 \<and> length (''META:3456'' @ [newline]) \<le> 4096"
  using metadata_overshoot_bound [of 4 sample_entropy 3 open_wb]
  by (simp add: generate_metadata_blocks_def metadata_loop_step metadata_loop_stop
      meta_block_def sample_entropy_def upt_conv_Cons)

text \<open>
  Claim C10. \<open>generate_metadata_blocks\<close> returns for every integer \<open>remaining\<close>, after
  at most \<open>(remaining + 6) / 7\<close> iterations (one per block). When \<open>remaining \<le> 0\<close>
  the loop body never runs: the result is 0 and neither the file nor the entropy tape
  has changed. When the loop condition \<open>written < remaining\<close> holds, one iteration
  raises \<open>written\<close> by at least 7 and so lowers the distance to \<open>remaining\<close>.
\<close>

theorem generate_metadata_blocks_terminates:
  "(\<exists>blocks e'.
      generate_metadata_blocks remaining e f =
        Inr (int (length (concat blocks)), e', fold fwrite blocks f) \<and>
      7 * int (length blocks) \<le> max 0 (remaining + 6)) \<and>
   (remaining \<le> 0 \<longrightarrow> generate_metadata_blocks remaining e f = Inr (0, e, f)) \<and>
   (\<forall>written e1 f1. written < remaining \<longrightarrow>
      (\<exists>w' e' f'. metadata_body remaining written e1 f1 = Inr (w', e', f') \<and>
         written + 7 \<le> w' \<and> nat (remaining - w') < nat (remaining - written)))"
proof (intro conjI allI impI)
  obtain t p where e: "e = (t, p)" by (cases e)
  from metadata_loop_blocks [of remaining 0 t p f] obtain blocks p' where
    run: "metadata_loop remaining 0 (t, p) f =
            Inr (0 + int (length (concat blocks)), (t, p'), fold fwrite blocks f)"
    and tot: "0 + int (length (concat blocks)) =
            (if 0 < remaining then 0 + fill_total (remaining - 0) else 0)"
    and shape: "\<forall>b \<in> set blocks. \<exists>k q. b = meta_block t q k \<and> 1 \<le> k \<and> k \<le> 4090"
    by blast
  have "7 * length blocks \<le> length (concat blocks)"
  proof (rule length_concat_ge)
    fix b assume "b \<in> set blocks"
    with shape obtain k q where "b = meta_block t q k" "1 \<le> k" by blast
    then show "7 \<le> length b" by (simp add: length_meta_block)
  qed
  then have "7 * int (length blocks) \<le> int (length (concat blocks))" by linarith
  also have "\<dots> \<le> max 0 (remaining + 6)"
  proof (cases "0 < remaining")
    case True
    with tot fill_total_le [OF True] show ?thesis by simp
  next
    case False
    with tot have "int (length (concat blocks)) = 0" by (simp only: if_False add_0)
    then show ?thesis by linarith
  qed
  finally have "7 * int (length blocks) \<le> max 0 (remaining + 6)" .
  moreover have "generate_metadata_blocks remaining e f =
      Inr (int (length (concat blocks)), (t, p'), fold fwrite blocks f)"
    using run by (simp add: generate_metadata_blocks_def e)
  ultimately show "\<exists>blocks e'.
      generate_metadata_blocks remaining e f =
        Inr (int (length (concat blocks)), e', fold fwrite blocks f) \<and>
      7 * int (length blocks) \<le> max 0 (remaining + 6)"
    by blast
next
  assume "remaining \<le> 0"
  then show "generate_metadata_blocks remaining e f = Inr (0, e, f)"
    by (simp add: generate_metadata_blocks_def metadata_loop_stop)
next
  fix written :: int and e1 :: entropy and f1 :: outfile
  assume lt: "written < remaining"
  obtain t p where e1: "e1 = (t, p)" by (cases e1)
  show "\<exists>w' e' f'. metadata_body remaining written e1 f1 = Inr (w', e', f') \<and>
      written + 7 \<le> w' \<and> nat (remaining - w') < nat (remaining - written)"
    unfolding e1 metadata_body_eq [OF lt] using lt by (simp add: min_def)
qed

theorem generate_metadata_blocks_terminates_witness:
  "generate_metadata_blocks (- 3) (sample_entropy, 0) open_wb = Inr (0, (sample_entropy, 0), open_wb) \<and>
   (10::int) < 20 \<and>
   metadata_body 20 10 (sample_entropy, 0) open_wb =
     Inr (26, (sample_entropy, 10), fwrite (''META:0123456789'' @ [newline]) open_wb) \<and>
   (10::int) + 7 \<le> 26"
  using generate_metadata_blocks_terminates [of "- 3" "(sample_entropy, 0)" open_wb]
    generate_metadata_blocks_terminates [of 20 "(sample_entropy, 0)" open_wb]
  by (simp add: metadata_body_def Let_def block_size_def sample_entropy_def upt_conv_Cons)

subsection \<open>Library calls and the record loop\<close>

lemma random_choice_ok:
  assumes "seq \<noteq> []"
  shows "\<exists>x g'. random_choice seq g = Inr (x, g') \<and> x \<in> set seq"
proof -
  obtain t p where g: "g = (t, p)" by (cases g)
  have "t p mod length seq < length seq" using assms by simp
  then have "seq ! (t p mod length seq) \<in> set seq" by (rule nth_mem)
  then show ?thesis using assms by (simp add: random_choice_def g)
qed

lemma random_randint_ok:
  assumes "a \<le> b"
  shows "\<exists>n g'. random_randint a b g = Inr (n, g') \<and> a \<le> n \<and> n \<le> b"
proof -
  obtain t p where g: "g = (t, p)" by (cases g)
  have "t p mod nat (b - a + 1) < nat (b - a + 1)" using assms by simp
  then have "a + int (t p mod nat (b - a + 1)) \<le> b" by linarith
  then show ?thesis using assms by (simp add: random_randint_def g)
qed

lemma str_int_digit:
  assumes "0 \<le> d" and "d \<le> 9"
  shows "\<exists>c \<in> set ''0123456789''. str_int d = [c]"
proof -
  have lt: "nat d < length ''0123456789''" using assms by simp
  have "''0123456789'' ! nat d \<in> set ''0123456789''" using lt by (rule nth_mem)
  moreover have "str_int d = [''0123456789'' ! nat d]"
    using assms by (simp add: str_int_def str_nat.simps)
  ultimately show ?thesis by blast
qed

lemma random_digits_ok:
  "\<exists>s g'. random_digits n g = Inr (s, g') \<and> length s = n \<and> set s \<subseteq> set ''0123456789''"
proof (induction n arbitrary: g)
  case 0
  show ?case by simp
next
  case (Suc n)
  obtain d g1 where d: "random_randint 0 9 g = Inr (d, g1)" "0 \<le> d" "d \<le> 9"
    using random_randint_ok [of 0 9 g] by auto
  obtain c where c: "c \<in> set ''0123456789''" "str_int d = [c]"
    using str_int_digit [OF d(2,3)] by blast
  obtain s g2 where s: "random_digits n g1 = Inr (s, g2)" "length s = n"
      "set s \<subseteq> set ''0123456789''"
    using Suc [of g1] by blast
  have "random_digits (Suc n) g = Inr (c # s, g2)"
    by (simp add: d(1) s(1) c(2))
  moreover have "length (c # s) = Suc n" using s(2) by simp
  moreover have "set (c # s) \<subseteq> set ''0123456789''" using c(1) s(3) by simp
  ultimately show ?case by blast
qed

lemma write_records_ok:
  assumes "\<And>g. \<exists>r g'. build g = Inr (r, g') \<and> P r"
  shows "\<exists>recs g'.
     write_records build n written g f =
       Inr (written + int (length (concat recs)), g', fold fwrite recs f) \<and>
     length recs = n \<and> (\<forall>r \<in> set recs. P r)"
proof (induction n arbitrary: written g f)
  case 0
  have "write_records build 0 written g f =
      Inr (written + int (length (concat ([] :: bytes list))), g, fold fwrite [] f)"
    by simp
  then show ?case by fastforce
next
  case (Suc n)
  obtain r g1 where r: "build g = Inr (r, g1)" "P r" using assms [of g] by blast
  obtain recs g2 where recs:
    "write_records build n (written + int (length r)) g1 (fwrite r f) =
       Inr (written + int (length r) + int (length (concat recs)), g2,
            fold fwrite recs (fwrite r f))"
    "length recs = n" "\<forall>r \<in> set recs. P r"
    using Suc [of "written + int (length r)" g1 "fwrite r f"] by blast
  have "write_records build (Suc n) written g f =
      Inr (written + int (length (concat (r # recs))), g2, fold fwrite (r # recs) f)"
    by (simp add: r(1) recs(1))
  moreover have "length (r # recs) = Suc n" using recs(2) by simp
  moreover have "\<forall>x \<in> set (r # recs). P x" using r(2) recs(3) by simp
  ultimately show ?case by blast
qed

lemma nat_2: "nat 2 = Suc (Suc 0)"
  by simp

lemma random_digits_numeral:
  "random_digits (numeral k) g =
     (case random_randint 0 9 g of
        Inl err \<Rightarrow> Inl err
      | Inr (d, g') \<Rightarrow>
          (case random_digits (pred_numeral k) g' of
             Inl err \<Rightarrow> Inl err
           | Inr (s, g'') \<Rightarrow> Inr (str_int d @ s, g'')))"
  by (simp add: numeral_eq_Suc)

lemma replicate_numeral_Cons: "replicate (numeral k) x = x # replicate (pred_numeral k) x"
  by (simp add: numeral_eq_Suc)


subsection \<open>Phone records\<close>

lemma concat_replicate_single: "concat (replicate k [c]) = replicate k c"
  by (induction k) simp_all

lemma phone_suffix_ok:
  "\<exists>s g'. phone_suffix n g = Inr (s, g') \<and> length s = nat n \<and>
     (if fst (random_random g) < double_0_3
      then \<exists>d \<in> set ''0123456789''. s = replicate (nat n) d
      else set s \<subseteq> set ''0123456789'')"
proof -
  obtain x g1 where x: "random_random g = (x, g1)" by (cases "random_random g")
  show ?thesis
  proof (cases "x < double_0_3")
    case True
    obtain d g2 where d: "random_randint 0 9 g1 = Inr (d, g2)" "0 \<le> d" "d \<le> 9"
      using random_randint_ok [of 0 9 g1] by auto
    obtain c where c: "c \<in> set ''0123456789''" "str_int d = [c]"
      using str_int_digit [OF d(2,3)] by blast
    have "phone_suffix n g = Inr (replicate (nat n) c, g2)"
      using True by (simp add: phone_suffix_def x d(1) c(2) concat_replicate_single)
    moreover have "length (replicate (nat n) c) = nat n" by simp
    ultimately show ?thesis using True c(1) x by fastforce
  next
    case False
    obtain s g2 where s: "random_digits (nat n) g1 = Inr (s, g2)" "length s = nat n"
        "set s \<subseteq> set ''0123456789''"
      using random_digits_ok [of "nat n" g1] by blast
    have "phone_suffix n g = Inr (s, g2)"
      using False by (simp add: phone_suffix_def x s(1))
    then show ?thesis using False s(2,3) x by fastforce
  qed
qed

lemma phone_record_ok:
  "\<exists>prefix suffix g'.
     phone_record g = Inr (''PHONE:'' @ prefix @ suffix @ [newline], g') \<and>
     prefix \<in> set COUNTRY_PREFIXES \<and> 6 \<le> length suffix \<and> length suffix \<le> 12 \<and>
     ((\<exists>d \<in> set ''0123456789''. suffix = replicate (length suffix) d) \<or>
      set suffix \<subseteq> set ''0123456789'')"
proof -
  have ne: "COUNTRY_PREFIXES \<noteq> []" by (simp add: COUNTRY_PREFIXES_def)
  obtain prefix g1 where p: "random_choice COUNTRY_PREFIXES g = Inr (prefix, g1)"
      "prefix \<in> set COUNTRY_PREFIXES"
    using random_choice_ok [OF ne, of g] by blast
  obtain n g2 where n: "random_randint 6 12 g1 = Inr (n, g2)" "6 \<le> n" "n \<le> 12"
    using random_randint_ok [of 6 12 g1] by auto
  obtain s g3 where s: "phone_suffix n g2 = Inr (s, g3)" "length s = nat n"
      "if fst (random_random g2) < double_0_3
       then \<exists>d \<in> set ''0123456789''. s = replicate (nat n) d
       else set s \<subseteq> set ''0123456789''"
    using phone_suffix_ok [of n g2] by blast
  have 1: "phone_record g = Inr (''PHONE:'' @ prefix @ s @ [newline], g3)"
    by (simp add: phone_record_def p(1) n(1) s(1) encode_def)
  have 2: "6 \<le> length s" "length s \<le> 12" using s(2) n(2,3) by simp_all
  have 3: "(\<exists>d \<in> set ''0123456789''. s = replicate (length s) d) \<or>
      set s \<subseteq> set ''0123456789''"
    using s(2,3) by (cases "fst (random_random g2) < double_0_3") simp_all
  from 1 2 3 p(2) show ?thesis by blast
qed

text \<open>
  Claim C4. \<open>generate_phone_patterns\<close> never raises; it writes \<open>count\<close> records (none
  when \<open>count \<le> 0\<close>) and returns the number of bytes it wrote. Every record is
  \<open>PHONE:\<close>, a prefix from \<open>COUNTRY_PREFIXES\<close>, a suffix and a newline; the suffix has
  between 6 and 12 characters and is one decimal digit repeated or a string of decimal
  digits. The suffix of the asked length is one digit repeated when the draw of
  \<open>random.random()\<close> is below 0.3, and a string of separately drawn digits otherwise.
\<close>

theorem generate_phone_patterns_records:
  "(\<exists>recs g'.
      generate_phone_patterns count g f =
        Inr (int (length (concat recs)), g', fold fwrite recs f) \<and>
      length recs = nat count \<and>
      (\<forall>r \<in> set recs. \<exists>prefix suffix.
         r = ''PHONE:'' @ prefix @ suffix @ [newline] \<and>
         prefix \<in> set COUNTRY_PREFIXES \<and> 6 \<le> length suffix \<and> length suffix \<le> 12 \<and>
         ((\<exists>d \<in> set ''0123456789''. suffix = replicate (length suffix) d) \<or>
          set suffix \<subseteq> set ''0123456789''))) \<and>
   (\<exists>s g'. phone_suffix n g0 = Inr (s, g') \<and> length s = nat n \<and>
      (if fst (random_random g0) < double_0_3
       then \<exists>d \<in> set ''0123456789''. s = replicate (nat n) d
       else set s \<subseteq> set ''0123456789''))"
proof -
  let ?P = "\<lambda>r. \<exists>prefix suffix.
        r = ''PHONE:'' @ prefix @ suffix @ [newline] \<and>
        prefix \<in> set COUNTRY_PREFIXES \<and> 6 \<le> length suffix \<and> length suffix \<le> 12 \<and>
        ((\<exists>d \<in> set ''0123456789''. suffix = replicate (length suffix) d) \<or>
         set suffix \<subseteq> set ''0123456789'')"
  have step: "\<exists>r g'. phone_record g = Inr (r, g') \<and> ?P r" for g
    using phone_record_ok [of g] by blast
  from write_records_ok [of phone_record ?P "nat count" 0 g f, OF step]
  have "\<exists>recs g'.
      generate_phone_patterns count g f =
        Inr (int (length (concat recs)), g', fold fwrite recs f) \<and>
      length recs = nat count \<and> (\<forall>r \<in> set recs. ?P r)"
    unfolding generate_phone_patterns_def by simp
  with phone_suffix_ok [of n g0] show ?thesis by blast
qed

theorem generate_phone_patterns_records_witness:
  "generate_phone_patterns 2 (sample_tape, 1) open_wb =
     Inr (40, (sample_tape, 20),
          fold fwrite [''PHONE:607777777777'' @ [newline],
                       ''PHONE:60123456789012'' @ [newline]] open_wb) \<and>
   phone_suffix 6 (sample_tape, 1) = Inr (''567890'', (sample_tape, 8))"
proof -
  have "generate_phone_patterns 2 (sample_tape, 1) open_wb =
     Inr (40, (sample_tape, 20),
          fold fwrite [''PHONE:607777777777'' @ [newline],
                       ''PHONE:60123456789012'' @ [newline]] open_wb)"
    unfolding generate_phone_patterns_def nat_2
    by (simp add: phone_record_def phone_suffix_def random_choice_def random_randint_def
        random_random_def double_0_3_def sample_tape_def COUNTRY_PREFIXES_def str_int_def
        str_nat.simps encode_def Let_def random_digits_numeral replicate_numeral_Cons)
  moreover have "phone_suffix 6 (sample_tape, 1) = Inr (''567890'', (sample_tape, 8))"
    by (simp add: phone_suffix_def random_randint_def random_random_def double_0_3_def
        sample_tape_def str_int_def str_nat.simps random_digits_numeral)
  ultimately show ?thesis
    using generate_phone_patterns_records [of 2 "(sample_tape, 1)" open_wb 6 "(sample_tape, 1)"]
    by simp
qed

subsection \<open>Domain records\<close>

lemma homoglyph_replace:
  "str_replace (CHR ''a'') (CHR ''4'')
     (str_replace (CHR ''l'') (CHR ''1'') (str_replace (CHR ''o'') (CHR ''0'') b)) =
   map (\<lambda>c. if c = CHR ''o'' then CHR ''0'' else if c = CHR ''l'' then CHR ''1''
            else if c = CHR ''a'' then CHR ''4'' else c) b"
  by (induction b) (simp_all add: str_replace_def)

lemma domain_record_ok:
  "\<exists>sub base n tld g'.
     domain_record g = Inr (''DOMAIN:'' @ sub @ base @ str_int n @ tld @ [newline], g') \<and>
     sub \<in> set subdomains \<and> tld \<in> set tlds \<and> 1 \<le> n \<and> n \<le> 999 \<and>
     (\<exists>b \<in> set DOMAIN_PATTERNS.
        base = b \<or>
        base = map (\<lambda>c. if c = CHR ''o'' then CHR ''0'' else if c = CHR ''l'' then CHR ''1''
                        else if c = CHR ''a'' then CHR ''4'' else c) b)"
proof -
  have ne: "DOMAIN_PATTERNS \<noteq> []" "tlds \<noteq> []" "subdomains \<noteq> []"
    by (simp_all add: DOMAIN_PATTERNS_def tlds_def subdomains_def)
  obtain b g1 where b: "random_choice DOMAIN_PATTERNS g = Inr (b, g1)"
      "b \<in> set DOMAIN_PATTERNS"
    using random_choice_ok [OF ne(1), of g] by blast
  obtain x g2 where x: "random_random g1 = (x, g2)" by (cases "random_random g1")
  define base where "base =
     (if x < double_0_2 then
        str_replace (CHR ''a'') (CHR ''4'')
          (str_replace (CHR ''l'') (CHR ''1'') (str_replace (CHR ''o'') (CHR ''0'') b))
      else b)"
  obtain tld g3 where tld: "random_choice tlds g2 = Inr (tld, g3)" "tld \<in> set tlds"
    using random_choice_ok [OF ne(2), of g2] by blast
  obtain sub g4 where sub: "random_choice subdomains g3 = Inr (sub, g4)"
      "sub \<in> set subdomains"
    using random_choice_ok [OF ne(3), of g3] by blast
  obtain n g5 where n: "random_randint 1 999 g4 = Inr (n, g5)" "1 \<le> n" "n \<le> 999"
    using random_randint_ok [of 1 999 g4] by auto
  have 1: "domain_record g =
      Inr (''DOMAIN:'' @ sub @ base @ str_int n @ tld @ [newline], g5)"
    by (simp add: domain_record_def b(1) x tld(1) sub(1) n(1) encode_def Let_def base_def)
  have 2: "base = b \<or>
      base = map (\<lambda>c. if c = CHR ''o'' then CHR ''0'' else if c = CHR ''l'' then CHR ''1''
                      else if c = CHR ''a'' then CHR ''4'' else c) b"
    unfolding base_def homoglyph_replace by simp
  from 1 2 b(2) tld(2) sub(2) n(2,3) show ?thesis by blast
qed

text \<open>
  Claim C5. \<open>generate_domain_patterns\<close> never raises; it writes \<open>count\<close> records and
  returns the number of bytes it wrote. Every record is \<open>DOMAIN:\<close>, a subdomain token
  from the fixed list (possibly empty), a base, the decimal form of a number between 1
  and 999, a top-level domain from \<open>tlds\<close> and a newline; the base is an element of
  \<open>DOMAIN_PATTERNS\<close>, as it is or with every \<open>o\<close> replaced by \<open>0\<close>, every \<open>l\<close> by \<open>1\<close>
  and every \<open>a\<close> by \<open>4\<close>.
\<close>

theorem generate_domain_patterns_records:
  "\<exists>recs g'.
     generate_domain_patterns count g f =
       Inr (int (length (concat recs)), g', fold fwrite recs f) \<and>
     length recs = nat count \<and>
     (\<forall>r \<in> set recs. \<exists>sub base n tld.
        r = ''DOMAIN:'' @ sub @ base @ str_int n @ tld @ [newline] \<and>
        sub \<in> set subdomains \<and> tld \<in> set tlds \<and> 1 \<le> n \<and> n \<le> 999 \<and>
        (\<exists>b \<in> set DOMAIN_PATTERNS.
           base = b \<or>
           base = map (\<lambda>c. if c = CHR ''o'' then CHR ''0'' else if c = CHR ''l'' then CHR ''1''
                           else if c = CHR ''a'' then CHR ''4'' else c) b))"
proof -
  let ?P = "\<lambda>r. \<exists>sub base n tld.
        r = ''DOMAIN:'' @ sub @ base @ str_int n @ tld @ [newline] \<and>
        sub \<in> set subdomains \<and> tld \<in> set tlds \<and> 1 \<le> n \<and> n \<le> 999 \<and>
        (\<exists>b \<in> set DOMAIN_PATTERNS.
           base = b \<or>
           base = map (\<lambda>c. if c = CHR ''o'' then CHR ''0'' else if c = CHR ''l'' then CHR ''1''
                           else if c = CHR ''a'' then CHR ''4'' else c) b)"
  have step: "\<exists>r g'. domain_record g = Inr (r, g') \<and> ?P r" for g
    using domain_record_ok [of g] by blast
  from write_records_ok [of domain_record ?P "nat count" 0 g f, OF step]
  show ?thesis unfolding generate_domain_patterns_def by simp
qed

theorem generate_domain_patterns_records_witness:
  "generate_domain_patterns 2 (sample_tape, 0) open_wb =
     Inr (51, (sample_tape, 10),
          fold fwrite [''DOMAIN:microsoft276.ml'' @ [newline],
                       ''DOMAIN:secure-g00g1e616.org'' @ [newline]] open_wb)"
proof -
  have "generate_domain_patterns 2 (sample_tape, 0) open_wb =
     Inr (51, (sample_tape, 10),
          fold fwrite [''DOMAIN:microsoft276.ml'' @ [newline],
                       ''DOMAIN:secure-g00g1e616.org'' @ [newline]] open_wb)"
    unfolding generate_domain_patterns_def nat_2
    by (simp add: domain_record_def random_choice_def random_randint_def
        random_random_def double_0_2_def sample_tape_def DOMAIN_PATTERNS_def tlds_def
        subdomains_def str_replace_def str_int_def str_nat.simps encode_def Let_def)
  then show ?thesis
    using generate_domain_patterns_records [of 2 "(sample_tape, 0)" open_wb] by simp
qed

subsection \<open>Signature records\<close>

lemma length_concat_const:
  "(\<And>r. r \<in> set rs \<Longrightarrow> length r = c) \<Longrightarrow> length (concat rs) = c * length rs"
  by (induction rs) simp_all

lemma signature_record_ok:
  assumes "\<And>b. length (sha256 b) = 32"
  shows "\<exists>p n g'.
     signature_record sha256 g =
       Inr (''SIG:'' @ phrase_hash sha256 (p @ ''_'' @ str_int n) @ [newline], g') \<and>
     p \<in> set phrases \<and> 1000 \<le> n \<and> n \<le> 99999 \<and>
     length (phrase_hash sha256 (p @ ''_'' @ str_int n)) = 16"
proof -
  have ne: "phrases \<noteq> []" by (simp add: phrases_def)
  obtain p g1 where p: "random_choice phrases g = Inr (p, g1)" "p \<in> set phrases"
    using random_choice_ok [OF ne, of g] by blast
  obtain n g2 where n: "random_randint 1000 99999 g1 = Inr (n, g2)" "1000 \<le> n" "n \<le> 99999"
    using random_randint_ok [of 1000 99999 g1] by auto
  have 1: "signature_record sha256 g =
      Inr (''SIG:'' @ phrase_hash sha256 (p @ ''_'' @ str_int n) @ [newline], g2)"
    by (simp add: signature_record_def p(1) n(1) Let_def)
  have 2: "length (phrase_hash sha256 (p @ ''_'' @ str_int n)) = 16"
    by (simp add: phrase_hash_def assms)
  from 1 2 p(2) n(2,3) show ?thesis by blast
qed

text \<open>
  Claim C6. For a digest function with 32-byte results, \<open>generate_phrase_signatures\<close>
  never raises; it writes \<open>count\<close> records of exactly 21 bytes each and returns 21 times
  their number. Every record is the 4-byte tag \<open>SIG:\<close>, the first 16 bytes of the digest
  of a phrase from the fixed list followed by an underscore and the decimal form of a
  number between 1000 and 99999, and one newline.
\<close>

theorem generate_phrase_signatures_records:
  assumes "\<And>b. length (sha256 b) = 32"
  shows "\<exists>recs g'.
     generate_phrase_signatures sha256 count g f =
       Inr (21 * int (length recs), g', fold fwrite recs f) \<and>
     length recs = nat count \<and>
     (\<forall>r \<in> set recs. length r = 21 \<and>
        (\<exists>p n. r = ''SIG:'' @ phrase_hash sha256 (p @ ''_'' @ str_int n) @ [newline] \<and>
           p \<in> set phrases \<and> 1000 \<le> n \<and> n \<le> 99999 \<and>
           phrase_hash sha256 (p @ ''_'' @ str_int n) =
             take 16 (sha256 (encode (p @ ''_'' @ str_int n))) \<and>
           length (phrase_hash sha256 (p @ ''_'' @ str_int n)) = 16))"
proof -
  let ?P = "\<lambda>r. length r = 21 \<and>
        (\<exists>p n. r = ''SIG:'' @ phrase_hash sha256 (p @ ''_'' @ str_int n) @ [newline] \<and>
           p \<in> set phrases \<and> 1000 \<le> n \<and> n \<le> 99999 \<and>
           phrase_hash sha256 (p @ ''_'' @ str_int n) =
             take 16 (sha256 (encode (p @ ''_'' @ str_int n))) \<and>
           length (phrase_hash sha256 (p @ ''_'' @ str_int n)) = 16)"
  have step: "\<exists>r g'. signature_record sha256 g = Inr (r, g') \<and> ?P r" for g
  proof -
    from signature_record_ok [of sha256 g, OF assms] obtain p n g' where
      r: "signature_record sha256 g =
            Inr (''SIG:'' @ phrase_hash sha256 (p @ ''_'' @ str_int n) @ [newline], g')"
      and ok: "p \<in> set phrases" "1000 \<le> n" "n \<le> 99999"
        "length (phrase_hash sha256 (p @ ''_'' @ str_int n)) = 16"
      by blast
    have "length (''SIG:'' @ phrase_hash sha256 (p @ ''_'' @ str_int n) @ [newline]) = 21"
      using ok(4) by simp
    moreover have "phrase_hash sha256 (p @ ''_'' @ str_int n) =
        take 16 (sha256 (encode (p @ ''_'' @ str_int n)))"
      by (simp add: phrase_hash_def)
    ultimately show ?thesis using r ok by blast
  qed
  from write_records_ok [of "signature_record sha256" ?P "nat count" 0 g f, OF step]
  obtain recs g' where
    run: "write_records (signature_record sha256) (nat count) 0 g f =
            Inr (0 + int (length (concat recs)), g', fold fwrite recs f)"
    and len: "length recs = nat count" and all: "\<forall>r \<in> set recs. ?P r"
    by blast
  have "length (concat recs) = 21 * length recs"
    by (rule length_concat_const) (use all in blast)
  then have "0 + int (length (concat recs)) = 21 * int (length recs)" by simp
  with run have "generate_phrase_signatures sha256 count g f =
      Inr (21 * int (length recs), g', fold fwrite recs f)"
    by (simp add: generate_phrase_signatures_def)
  with len all show ?thesis by blast
qed

theorem generate_phrase_signatures_records_witness:
  "(\<forall>b. length (sample_digest b) = 32) \<and>
   generate_phrase_signatures sample_digest 2 (sample_tape, 0) open_wb =
     Inr (42, (sample_tape, 4),
          fold fwrite [''SIG:################'' @ [newline],
                       ''SIG:################'' @ [newline]] open_wb)"
proof -
  have len: "length (sample_digest b) = 32" for b
    by (simp add: sample_digest_def)
  have "generate_phrase_signatures sample_digest 2 (sample_tape, 0) open_wb =
     Inr (42, (sample_tape, 4),
          fold fwrite [''SIG:################'' @ [newline],
                       ''SIG:################'' @ [newline]] open_wb)"
    unfolding generate_phrase_signatures_def nat_2
    by (simp add: signature_record_def phrase_hash_def random_choice_def random_randint_def
        sample_tape_def sample_digest_def phrases_def encode_def Let_def
        replicate_numeral_Cons)
  then show ?thesis
    using generate_phrase_signatures_records [of sample_digest 2 "(sample_tape, 0)" open_wb,
        OF len] len by simp
qed

subsection \<open>What a generator writes does not depend on the file\<close>

lemma char_of_zero: "char_of (0::int) = NUL"
  by (simp add: char_of_def NUL_def)

lemma struct_pack_Q_zero: "struct_pack_Q 0 = Inr (replicate 8 NUL)"
  by (simp add: struct_pack_Q_def char_of_zero upt_conv_Cons replicate_numeral_Cons)

lemma write_records_frame:
  assumes "\<And>g. \<exists>r g'. build g = Inr (r, g')"
  shows "\<exists>recs g'. \<forall>written f.
     write_records build n written g f =
       Inr (written + int (length (concat recs)), g', fold fwrite recs f)"
proof (induction n arbitrary: g)
  case 0
  have "\<forall>written f. write_records build 0 written g f =
      Inr (written + int (length (concat ([] :: bytes list))), g, fold fwrite [] f)"
    by simp
  then show ?case by blast
next
  case (Suc n)
  obtain r g1 where r: "build g = Inr (r, g1)" using assms [of g] by blast
  obtain recs g2 where recs:
    "\<forall>written f. write_records build n written g1 f =
       Inr (written + int (length (concat recs)), g2, fold fwrite recs f)"
    using Suc [of g1] by blast
  have "\<forall>written f. write_records build (Suc n) written g f =
      Inr (written + int (length (concat (r # recs))), g2, fold fwrite (r # recs) f)"
    by (simp add: r recs)
  then show ?case by blast
qed

lemma metadata_loop_frame:
  "\<exists>blocks p'. \<forall>f.
     metadata_loop remaining written (t, p) f =
       Inr (written + int (length (concat blocks)), (t, p'), fold fwrite blocks f)"
proof (induction "nat (remaining - written)" arbitrary: written p rule: less_induct)
  case less
  show ?case
  proof (cases "written < remaining")
    case False
    have "\<forall>f. metadata_loop remaining written (t, p) f =
        Inr (written + int (length (concat ([] :: bytes list))), (t, p), fold fwrite [] f)"
      using False by (simp add: metadata_loop_stop)
    then show ?thesis by blast
  next
    case True
    define k where "k = nat (min 4090 (remaining - written))"
    define w' where "w' = written + (min 4090 (remaining - written) + 6)"
    have k: "int k = min 4090 (remaining - written)"
      using True unfolding k_def min_def by simp
    have dec: "nat (remaining - w') < nat (remaining - written)"
      using True by (simp add: w'_def min_def)
    from less [OF dec, of "p + k"] obtain blocks p' where
      run: "\<forall>f. metadata_loop remaining w' (t, p + k) f =
              Inr (w' + int (length (concat blocks)), (t, p'), fold fwrite blocks f)"
      by blast
    let ?bs = "meta_block t p k # blocks"
    have len: "written + int (length (concat ?bs)) = w' + int (length (concat blocks))"
      using k by (simp add: w'_def length_meta_block)
    have "\<forall>f. metadata_loop remaining written (t, p) f =
        Inr (written + int (length (concat ?bs)), (t, p'), fold fwrite ?bs f)"
    proof
      fix f
      have "metadata_loop remaining written (t, p) f =
          metadata_loop remaining w' (t, p + k) (fwrite (meta_block t p k) f)"
        unfolding w'_def k_def by (rule metadata_loop_step [OF True])
      with run len show "metadata_loop remaining written (t, p) f =
          Inr (written + int (length (concat ?bs)), (t, p'), fold fwrite ?bs f)"
        by simp
    qed
    then show ?thesis by blast
  qed
qed

lemma generate_metadata_blocks_frame:
  "\<exists>blocks e'.
     (\<forall>f. generate_metadata_blocks remaining e f =
        Inr (int (length (concat blocks)), e', fold fwrite blocks f)) \<and>
     int (length (concat blocks)) = (if 0 < remaining then fill_total remaining else 0)"
proof -
  obtain t p where e: "e = (t, p)" by (cases e)
  from metadata_loop_frame [of remaining 0 t p] obtain blocks p' where
    run: "\<forall>f. metadata_loop remaining 0 (t, p) f =
            Inr (0 + int (length (concat blocks)), (t, p'), fold fwrite blocks f)"
    by blast
  from metadata_loop_blocks [of remaining 0 t p open_wb] obtain blocks' p'' where
    run': "metadata_loop remaining 0 (t, p) open_wb =
            Inr (0 + int (length (concat blocks')), (t, p''), fold fwrite blocks' open_wb)"
    and tot: "0 + int (length (concat blocks')) =
            (if 0 < remaining then 0 + fill_total (remaining - 0) else 0)"
    by blast
  from run run' have "int (length (concat blocks)) = int (length (concat blocks'))"
    by simp
  with tot have "int (length (concat blocks)) = (if 0 < remaining then fill_total remaining else 0)"
    by simp
  moreover have "\<forall>f. generate_metadata_blocks remaining e f =
      Inr (int (length (concat blocks)), (t, p'), fold fwrite blocks f)"
    using run by (simp add: generate_metadata_blocks_def e)
  ultimately show ?thesis by blast
qed

lemma phone_record_total: "\<exists>r g'. phone_record g = Inr (r, g')"
  using phone_record_ok [of g] by blast

lemma domain_record_total: "\<exists>r g'. domain_record g = Inr (r, g')"
  using domain_record_ok [of g] by blast

lemma signature_record_total: "\<exists>r g'. signature_record sha256 g = Inr (r, g')"
proof -
  have ne: "phrases \<noteq> []" by (simp add: phrases_def)
  obtain p g1 where p: "random_choice phrases g = Inr (p, g1)"
    using random_choice_ok [OF ne, of g] by blast
  obtain n g2 where n: "random_randint 1000 99999 g1 = Inr (n, g2)"
    using random_randint_ok [of 1000 99999 g1] by auto
  show ?thesis by (simp add: signature_record_def p n Let_def)
qed

lemma generate_phone_patterns_frame:
  "\<exists>recs g'. \<forall>f. generate_phone_patterns count g f =
      Inr (int (length (concat recs)), g', fold fwrite recs f)"
  using write_records_frame [of phone_record "nat count" g, OF phone_record_total]
  unfolding generate_phone_patterns_def by (metis add_0)

lemma generate_domain_patterns_frame:
  "\<exists>recs g'. \<forall>f. generate_domain_patterns count g f =
      Inr (int (length (concat recs)), g', fold fwrite recs f)"
  using write_records_frame [of domain_record "nat count" g, OF domain_record_total]
  unfolding generate_domain_patterns_def by (metis add_0)

lemma generate_phrase_signatures_frame:
  "\<exists>recs g'. \<forall>f. generate_phrase_signatures sha256 count g f =
      Inr (int (length (concat recs)), g', fold fwrite recs f)"
  using write_records_frame [of "signature_record sha256" "nat count" g,
      OF signature_record_total]
  unfolding generate_phrase_signatures_def by (metis add_0)

lemma write_appends:
  assumes "at_end f"
  shows "contents (fold fwrite bs f) = contents f @ concat bs \<and> at_end (fold fwrite bs f)"
  using assms by (simp add: fold_fwrite_at_end at_end_appended) (simp add: appended_def)

lemma generate_metadata_blocks_ge:
  assumes "0 < remaining"
  shows "\<exists>blocks e'.
     generate_metadata_blocks remaining e f =
       Inr (int (length (concat blocks)), e', fold fwrite blocks f) \<and>
     remaining \<le> int (length (concat blocks))"
proof -
  from generate_metadata_blocks_frame [of remaining e] obtain blocks e' where
    run: "\<forall>f. generate_metadata_blocks remaining e f =
        Inr (int (length (concat blocks)), e', fold fwrite blocks f)"
    and tot: "int (length (concat blocks)) = (if 0 < remaining then fill_total remaining else 0)"
    by blast
  from tot assms have "int (length (concat blocks)) = fill_total remaining" by simp
  with fill_total_ge [of remaining] have "remaining \<le> int (length (concat blocks))" by simp
  with run show ?thesis by blast
qed


subsection \<open>The driver\<close>

lemma main_run:
  "\<exists>recs1 g1 recs2 g2 recs3 g3 blocks e'.
     (\<forall>f. generate_phone_patterns 2500000 g f =
        Inr (int (length (concat recs1)), g1, fold fwrite recs1 f)) \<and>
     (\<forall>f. generate_domain_patterns 2500000 g1 f =
        Inr (int (length (concat recs2)), g2, fold fwrite recs2 f)) \<and>
     (\<forall>f. generate_phrase_signatures sha256 6500000 g2 f =
        Inr (int (length (concat recs3)), g3, fold fwrite recs3 f)) \<and>
     (\<forall>f. generate_metadata_blocks
        (TARGET_SIZE_BYTES -
          (int (length (concat recs1)) + int (length (concat recs2)) +
           int (length (concat recs3)))) e f =
        Inr (int (length (concat blocks)), e', fold fwrite blocks f)) \<and>
     int (length (concat blocks)) =
       (if 0 < TARGET_SIZE_BYTES -
          (int (length (concat recs1)) + int (length (concat recs2)) +
           int (length (concat recs3)))
        then fill_total (TARGET_SIZE_BYTES -
          (int (length (concat recs1)) + int (length (concat recs2)) +
           int (length (concat recs3))))
        else 0) \<and>
     main sha256 g e =
       (if 0 < TARGET_SIZE_BYTES -
          (int (length (concat recs1)) + int (length (concat recs2)) +
           int (length (concat recs3)))
        then Inr (int (length (concat recs1)) + int (length (concat recs2)) +
                  int (length (concat recs3)) + int (length (concat blocks)),
                  appended open_wb
                    (''DFS_THREAT_DB_V1'' @ [NUL] @ replicate 8 NUL @
                     concat recs1 @ concat recs2 @ concat recs3 @ concat blocks))
        else Inr (int (length (concat recs1)) + int (length (concat recs2)) +
                  int (length (concat recs3)),
                  appended open_wb
                    (''DFS_THREAT_DB_V1'' @ [NUL] @ replicate 8 NUL @
                     concat recs1 @ concat recs2 @ concat recs3)))"
proof -
  obtain recs1 g1 where p1: "\<forall>f. generate_phone_patterns 2500000 g f =
      Inr (int (length (concat recs1)), g1, fold fwrite recs1 f)"
    using generate_phone_patterns_frame [of 2500000 g] by blast
  obtain recs2 g2 where p2: "\<forall>f. generate_domain_patterns 2500000 g1 f =
      Inr (int (length (concat recs2)), g2, fold fwrite recs2 f)"
    using generate_domain_patterns_frame [of 2500000 g1] by blast
  obtain recs3 g3 where p3: "\<forall>f. generate_phrase_signatures sha256 6500000 g2 f =
      Inr (int (length (concat recs3)), g3, fold fwrite recs3 f)"
    using generate_phrase_signatures_frame [of sha256 6500000 g2] by blast
  define n1 n2 n3 where "n1 = int (length (concat recs1))"
    and "n2 = int (length (concat recs2))" and "n3 = int (length (concat recs3))"
  define R where "R = TARGET_SIZE_BYTES - (n1 + n2 + n3)"
  obtain blocks e' where p4: "\<forall>f. generate_metadata_blocks R e f =
      Inr (int (length (concat blocks)), e', fold fwrite blocks f)"
    and tot: "int (length (concat blocks)) = (if 0 < R then fill_total R else 0)"
    using generate_metadata_blocks_frame [of R e] by blast
  define n4 where "n4 = int (length (concat blocks))"
  note q = p1 [folded n1_def] p2 [folded n2_def] p3 [folded n3_def]
    p4 [folded n4_def, unfolded R_def]
  have m: "main sha256 g e =
      (if 0 < TARGET_SIZE_BYTES - (n1 + n2 + n3) then Inr (n1 + n2 + n3 + n4,
            appended open_wb (''DFS_THREAT_DB_V1'' @ [NUL] @ replicate 8 NUL @
              concat recs1 @ concat recs2 @ concat recs3 @ concat blocks))
       else Inr (n1 + n2 + n3,
            appended open_wb (''DFS_THREAT_DB_V1'' @ [NUL] @ replicate 8 NUL @
              concat recs1 @ concat recs2 @ concat recs3)))"
    unfolding main_def struct_pack_Q_zero Let_def
    by (simp add: q fwrite_at_end fold_fwrite_at_end at_end_open_wb
        at_end_appended appended_appended del: length_concat)
  show ?thesis
    using p1 p2 p3 p4 tot m unfolding n1_def n2_def n3_def n4_def R_def
    by (intro exI conjI)
qed

lemma contents_appended_open_wb: "contents (appended open_wb d) = d"
  by (simp add: appended_def open_wb_def)

lemma fold_fwrite_open_wb: "fold fwrite bs open_wb = appended open_wb (concat bs)"
  by (rule fold_fwrite_at_end) (rule at_end_open_wb)

lemma main_phases:
  "\<exists>n1 g1 f1 n2 g2 f2 n3 g3 f3 n4 e4 f4.
     generate_phone_patterns 2500000 g open_wb = Inr (n1, g1, f1) \<and>
     int (length (contents f1)) = n1 \<and>
     generate_domain_patterns 2500000 g1 open_wb = Inr (n2, g2, f2) \<and>
     int (length (contents f2)) = n2 \<and>
     generate_phrase_signatures sha256 6500000 g2 open_wb = Inr (n3, g3, f3) \<and>
     int (length (contents f3)) = n3 \<and>
     generate_metadata_blocks (TARGET_SIZE_BYTES - (n1 + n2 + n3)) e open_wb =
       Inr (n4, e4, f4) \<and>
     int (length (contents f4)) = n4 \<and>
     n4 = (if 0 < TARGET_SIZE_BYTES - (n1 + n2 + n3)
           then fill_total (TARGET_SIZE_BYTES - (n1 + n2 + n3)) else 0) \<and>
     main sha256 g e =
       (if 0 < TARGET_SIZE_BYTES - (n1 + n2 + n3)
        then Inr (n1 + n2 + n3 + n4,
               appended open_wb
                 (''DFS_THREAT_DB_V1'' @ [NUL] @ replicate 8 NUL @
                  contents f1 @ contents f2 @ contents f3 @ contents f4))
        else Inr (n1 + n2 + n3,
               appended open_wb
                 (''DFS_THREAT_DB_V1'' @ [NUL] @ replicate 8 NUL @
                  contents f1 @ contents f2 @ contents f3)))"
proof -
  from main_run [of g sha256 e] obtain recs1 g1 recs2 g2 recs3 g3 blocks e' where
    p1: "\<forall>f. generate_phone_patterns 2500000 g f =
        Inr (int (length (concat recs1)), g1, fold fwrite recs1 f)"
    and p2: "\<forall>f. generate_domain_patterns 2500000 g1 f =
        Inr (int (length (concat recs2)), g2, fold fwrite recs2 f)"
    and p3: "\<forall>f. generate_phrase_signatures sha256 6500000 g2 f =
        Inr (int (length (concat recs3)), g3, fold fwrite recs3 f)"
    and p4: "\<forall>f. generate_metadata_blocks
        (TARGET_SIZE_BYTES -
          (int (length (concat recs1)) + int (length (concat recs2)) +
           int (length (concat recs3)))) e f =
        Inr (int (length (concat blocks)), e', fold fwrite blocks f)"
    and tot: "int (length (concat blocks)) =
       (if 0 < TARGET_SIZE_BYTES -
          (int (length (concat recs1)) + int (length (concat recs2)) +
           int (length (concat recs3)))
        then fill_total (TARGET_SIZE_BYTES -
          (int (length (concat recs1)) + int (length (concat recs2)) +
           int (length (concat recs3))))
        else 0)"
    and m: "main sha256 g e =
       (if 0 < TARGET_SIZE_BYTES -
          (int (length (concat recs1)) + int (length (concat recs2)) +
           int (length (concat recs3)))
        then Inr (int (length (concat recs1)) + int (length (concat recs2)) +
                  int (length (concat recs3)) + int (length (concat blocks)),
                  appended open_wb
                    (''DFS_THREAT_DB_V1'' @ [NUL] @ replicate 8 NUL @
                     concat recs1 @ concat recs2 @ concat recs3 @ concat blocks))
        else Inr (int (length (concat recs1)) + int (length (concat recs2)) +
                  int (length (concat recs3)),
                  appended open_wb
                    (''DFS_THREAT_DB_V1'' @ [NUL] @ replicate 8 NUL @
                     concat recs1 @ concat recs2 @ concat recs3)))"
    by blast
  define n1 n2 n3 n4 where "n1 = int (length (concat recs1))"
    and "n2 = int (length (concat recs2))" and "n3 = int (length (concat recs3))"
    and "n4 = int (length (concat blocks))"
  define f1 f2 f3 f4 where "f1 = appended open_wb (concat recs1)"
    and "f2 = appended open_wb (concat recs2)" and "f3 = appended open_wb (concat recs3)"
    and "f4 = appended open_wb (concat blocks)"
  have c: "contents f1 = concat recs1" "contents f2 = concat recs2"
    "contents f3 = concat recs3" "contents f4 = concat blocks"
    by (simp_all add: f1_def f2_def f3_def f4_def contents_appended_open_wb)
  have l: "int (length (contents f1)) = n1" "int (length (contents f2)) = n2"
    "int (length (contents f3)) = n3" "int (length (contents f4)) = n4"
    by (simp_all only: c n1_def n2_def n3_def n4_def)
  have q1: "generate_phone_patterns 2500000 g open_wb = Inr (n1, g1, f1)"
    using p1 by (simp only: n1_def f1_def fold_fwrite_open_wb)
  have q2: "generate_domain_patterns 2500000 g1 open_wb = Inr (n2, g2, f2)"
    using p2 by (simp only: n2_def f2_def fold_fwrite_open_wb)
  have q3: "generate_phrase_signatures sha256 6500000 g2 open_wb = Inr (n3, g3, f3)"
    using p3 by (simp only: n3_def f3_def fold_fwrite_open_wb)
  have q4: "generate_metadata_blocks (TARGET_SIZE_BYTES - (n1 + n2 + n3)) e open_wb =
      Inr (n4, e', f4)"
    using p4 by (simp only: n1_def n2_def n3_def n4_def f4_def fold_fwrite_open_wb)
  have t: "n4 = (if 0 < TARGET_SIZE_BYTES - (n1 + n2 + n3)
           then fill_total (TARGET_SIZE_BYTES - (n1 + n2 + n3)) else 0)"
    using tot by (simp only: n1_def n2_def n3_def n4_def)
  have m': "main sha256 g e =
      (if 0 < TARGET_SIZE_BYTES - (n1 + n2 + n3)
       then Inr (n1 + n2 + n3 + n4,
              appended open_wb
                (''DFS_THREAT_DB_V1'' @ [NUL] @ replicate 8 NUL @
                 contents f1 @ contents f2 @ contents f3 @ contents f4))
       else Inr (n1 + n2 + n3,
              appended open_wb
                (''DFS_THREAT_DB_V1'' @ [NUL] @ replicate 8 NUL @
                 contents f1 @ contents f2 @ contents f3)))"
    using m by (simp only: n1_def n2_def n3_def n4_def c)
  from q1 l(1) q2 l(2) q3 l(3) q4 l(4) t m' show ?thesis by blast
qed


subsection \<open>A complete run\<close>

lemma write_records_constant:
  assumes "\<And>p. build (t, p) = Inr (r, (t, p + k))"
  shows "write_records build n written (t, p) f =
     Inr (written + int n * int (length r), (t, p + n * k), fold fwrite (replicate n r) f)"
proof (induction n arbitrary: written p f)
  case 0
  show ?case by simp
next
  case (Suc n)
  have "write_records build (Suc n) written (t, p) f =
      write_records build n (written + int (length r)) (t, p + k) (fwrite r f)"
    by (simp add: assms)
  also have "\<dots> = Inr (written + int (length r) + int n * int (length r),
      (t, p + k + n * k), fold fwrite (replicate n r) (fwrite r f))"
    by (rule Suc)
  finally show ?case by (simp add: algebra_simps)
qed

lemma phone_record_zero:
  "phone_record (zero_tape, p) = Inr (''PHONE:234000000'' @ [newline], (zero_tape, p + 4))"
  by (simp add: phone_record_def phone_suffix_def random_choice_def random_randint_def
      random_random_def double_0_3_def zero_tape_def COUNTRY_PREFIXES_def str_int_def
      str_nat.simps encode_def Let_def replicate_numeral_Cons)

lemma domain_record_zero:
  "domain_record (zero_tape, p) = Inr (''DOMAIN:p4yp411.com'' @ [newline], (zero_tape, p + 5))"
  by (simp add: domain_record_def random_choice_def random_randint_def
      random_random_def double_0_2_def zero_tape_def DOMAIN_PATTERNS_def tlds_def
      subdomains_def str_replace_def str_int_def str_nat.simps encode_def Let_def)

lemma signature_record_zero:
  "signature_record sample_digest (zero_tape, p) =
     Inr (''SIG:################'' @ [newline], (zero_tape, p + 2))"
  by (simp add: signature_record_def phrase_hash_def random_choice_def random_randint_def
      zero_tape_def sample_digest_def phrases_def encode_def Let_def replicate_numeral_Cons)

lemma generate_phone_patterns_zero:
  "generate_phone_patterns 2500000 (zero_tape, 0) f =
     Inr (40000000, (zero_tape, 10000000),
          fold fwrite (replicate 2500000 (''PHONE:234000000'' @ [newline])) f)"
  unfolding generate_phone_patterns_def
  using write_records_constant [of phone_record zero_tape _ 4 2500000 0 0 f,
      OF phone_record_zero]
  by simp

lemma generate_domain_patterns_zero:
  "generate_domain_patterns 2500000 (zero_tape, 10000000) f =
     Inr (47500000, (zero_tape, 22500000),
          fold fwrite (replicate 2500000 (''DOMAIN:p4yp411.com'' @ [newline])) f)"
  unfolding generate_domain_patterns_def
  using write_records_constant [of domain_record zero_tape _ 5 2500000 0 10000000 f,
      OF domain_record_zero]
  by simp

lemma generate_phrase_signatures_zero:
  "generate_phrase_signatures sample_digest 6500000 (zero_tape, 22500000) f =
     Inr (136500000, (zero_tape, 35500000),
          fold fwrite (replicate 6500000 (''SIG:################'' @ [newline])) f)"
  unfolding generate_phrase_signatures_def
  using write_records_constant [of "signature_record sample_digest" zero_tape _ 2
      6500000 0 22500000 f, OF signature_record_zero]
  by simp

lemma metadata_loop_full_blocks:
  "written + 4096 * int n \<le> remaining \<Longrightarrow>
   metadata_loop remaining written (t, p) f =
     metadata_loop remaining (written + 4096 * int n) (t, p + 4090 * n)
       (fold fwrite (map (\<lambda>i. meta_block t (p + 4090 * i) 4090) [0..<n]) f)"
proof (induction n)
  case 0
  show ?case by simp
next
  case (Suc n)
  let ?w = "written + 4096 * int n"
  let ?f = "fold fwrite (map (\<lambda>i. meta_block t (p + 4090 * i) 4090) [0..<n]) f"
  have lt: "?w < remaining" and full: "min 4090 (remaining - ?w) = 4090"
    using Suc.prems by simp_all
  have "metadata_loop remaining written (t, p) f =
      metadata_loop remaining ?w (t, p + 4090 * n) ?f"
    using Suc.prems by (intro Suc.IH) simp
  also have "\<dots> = metadata_loop remaining (?w + (4090 + 6)) (t, p + 4090 * n + 4090)
      (fwrite (meta_block t (p + 4090 * n) 4090) ?f)"
    using metadata_loop_step [OF lt, of t "p + 4090 * n" ?f] by (simp only: full) simp
  also have "?w + (4090 + 6) = written + 4096 * int (Suc n)" by simp
  also have "p + 4090 * n + 4090 = p + 4090 * Suc n" by simp
  also have "fwrite (meta_block t (p + 4090 * n) 4090) ?f =
      fold fwrite (map (\<lambda>i. meta_block t (p + 4090 * i) 4090) [0..<Suc n]) f"
    by simp
  finally show ?case .
qed

lemma generate_metadata_blocks_zero_run:
  "generate_metadata_blocks 562432000 (sample_entropy, 0) f =
     Inr (562432006, (sample_entropy, 561608128), fold fwrite zero_run_blocks f)"
proof -
  have "metadata_loop 562432000 0 (sample_entropy, 0) f =
      metadata_loop 562432000 (0 + 4096 * int 137312) (sample_entropy, 0 + 4090 * 137312)
        (fold fwrite (map (\<lambda>i. meta_block sample_entropy (0 + 4090 * i) 4090) [0..<137312]) f)"
    by (rule metadata_loop_full_blocks) simp
  also have "\<dots> = metadata_loop 562432000 562429952 (sample_entropy, 561606080)
        (fold fwrite (map (\<lambda>i. meta_block sample_entropy (4090 * i) 4090) [0..<137312]) f)"
    by simp
  also have "\<dots> = Inr (562432006, (sample_entropy, 561608128), fold fwrite zero_run_blocks f)"
    by (simp add: metadata_loop_step metadata_loop_stop zero_run_blocks_def
        zero_run_full_blocks_def)
  finally show ?thesis by (simp add: generate_metadata_blocks_def)
qed

lemma generate_metadata_blocks_zero_run_less:
  "generate_metadata_blocks 562431975 (sample_entropy, 0) f =
     Inr (562431981, (sample_entropy, 561608103),
          fold fwrite (zero_run_full_blocks @ [meta_block sample_entropy 561606080 2023]) f)"
proof -
  have "metadata_loop 562431975 0 (sample_entropy, 0) f =
      metadata_loop 562431975 (0 + 4096 * int 137312) (sample_entropy, 0 + 4090 * 137312)
        (fold fwrite (map (\<lambda>i. meta_block sample_entropy (0 + 4090 * i) 4090) [0..<137312]) f)"
    by (rule metadata_loop_full_blocks) simp
  also have "\<dots> = metadata_loop 562431975 562429952 (sample_entropy, 561606080)
        (fold fwrite (map (\<lambda>i. meta_block sample_entropy (4090 * i) 4090) [0..<137312]) f)"
    by simp
  also have "\<dots> = Inr (562431981, (sample_entropy, 561608103),
      fold fwrite (zero_run_full_blocks @ [meta_block sample_entropy 561606080 2023]) f)"
    by (simp add: metadata_loop_step metadata_loop_stop zero_run_full_blocks_def)
  finally show ?thesis by (simp add: generate_metadata_blocks_def)
qed

lemma length_zero_run_records: "length zero_run_records = 224000000"
  by (simp add: zero_run_records_def length_concat sum_list_replicate)

lemma length_zero_run_blocks: "length (concat zero_run_blocks) = 562432006"
  by (simp add: zero_run_blocks_def zero_run_full_blocks_def length_concat comp_def
      length_meta_block sum_list_triv)

lemma main_zero_run:
  "main sample_digest (zero_tape, 0) (sample_entropy, 0) =
     Inr (786432006,
          appended open_wb
            (''DFS_THREAT_DB_V1'' @ [NUL] @ replicate 8 NUL @ zero_run_records @
             concat zero_run_blocks))"
  unfolding main_def struct_pack_Q_zero Let_def
  by (simp add: generate_phone_patterns_zero generate_domain_patterns_zero
      generate_phrase_signatures_zero generate_metadata_blocks_zero_run
      TARGET_SIZE_BYTES_def fwrite_at_end fold_fwrite_at_end at_end_open_wb
      at_end_appended appended_appended zero_run_records_def
      del: length_concat fold_replicate)

subsection \<open>The file as a whole\<close>

text \<open>
  Claim C3, as amended. In every run \<open>main\<close> succeeds and the file is the 25-byte header
  followed by what \<open>generate_phone_patterns\<close> writes for 2,500,000 records, then
  \<open>generate_domain_patterns\<close> for 2,500,000, then \<open>generate_phrase_signatures\<close> for
  6,500,000, each continuing with the random generator as the one before left it, then
  what \<open>generate_metadata_blocks\<close> writes. The metadata filler is called with
  \<open>remaining = TARGET_SIZE_BYTES - (n1 + n2 + n3)\<close>, where \<open>n1\<close>, \<open>n2\<close>, \<open>n3\<close> are the
  byte counts the three generators returned (the 25 bytes of the header are not part of
  the sum), and only when that value is positive; otherwise the file ends after the
  signatures.
\<close>

theorem main_layout:
  "\<exists>n1 g1 f1 n2 g2 f2 n3 g3 f3.
     generate_phone_patterns 2500000 g open_wb = Inr (n1, g1, f1) \<and>
     generate_domain_patterns 2500000 g1 open_wb = Inr (n2, g2, f2) \<and>
     generate_phrase_signatures sha256 6500000 g2 open_wb = Inr (n3, g3, f3) \<and>
     length (''DFS_THREAT_DB_V1'' @ [NUL] @ replicate 8 NUL) = 25 \<and>
     (if 0 < TARGET_SIZE_BYTES - (n1 + n2 + n3) then
        \<exists>n4 e4 f4.
          generate_metadata_blocks (TARGET_SIZE_BYTES - (n1 + n2 + n3)) e open_wb =
            Inr (n4, e4, f4) \<and>
          main sha256 g e =
            Inr (n1 + n2 + n3 + n4,
                 appended open_wb
                   (''DFS_THREAT_DB_V1'' @ [NUL] @ replicate 8 NUL @
                    contents f1 @ contents f2 @ contents f3 @ contents f4))
      else
        main sha256 g e =
          Inr (n1 + n2 + n3,
               appended open_wb
                 (''DFS_THREAT_DB_V1'' @ [NUL] @ replicate 8 NUL @
                  contents f1 @ contents f2 @ contents f3)))"
proof -
  from main_phases [of g sha256 e] obtain n1 g1 f1 n2 g2 f2 n3 g3 f3 n4 e4 f4 where
    q1: "generate_phone_patterns 2500000 g open_wb = Inr (n1, g1, f1)"
    and q2: "generate_domain_patterns 2500000 g1 open_wb = Inr (n2, g2, f2)"
    and q3: "generate_phrase_signatures sha256 6500000 g2 open_wb = Inr (n3, g3, f3)"
    and q4: "generate_metadata_blocks (TARGET_SIZE_BYTES - (n1 + n2 + n3)) e open_wb =
       Inr (n4, e4, f4)"
    and m: "main sha256 g e =
       (if 0 < TARGET_SIZE_BYTES - (n1 + n2 + n3)
        then Inr (n1 + n2 + n3 + n4,
               appended open_wb
                 (''DFS_THREAT_DB_V1'' @ [NUL] @ replicate 8 NUL @
                  contents f1 @ contents f2 @ contents f3 @ contents f4))
        else Inr (n1 + n2 + n3,
               appended open_wb
                 (''DFS_THREAT_DB_V1'' @ [NUL] @ replicate 8 NUL @
                  contents f1 @ contents f2 @ contents f3)))"
    by blast
  have len: "length (''DFS_THREAT_DB_V1'' @ [NUL] @ replicate 8 NUL) = 25" by simp
  have last: "if 0 < TARGET_SIZE_BYTES - (n1 + n2 + n3) then
        \<exists>n4 e4 f4.
          generate_metadata_blocks (TARGET_SIZE_BYTES - (n1 + n2 + n3)) e open_wb =
            Inr (n4, e4, f4) \<and>
          main sha256 g e =
            Inr (n1 + n2 + n3 + n4,
                 appended open_wb
                   (''DFS_THREAT_DB_V1'' @ [NUL] @ replicate 8 NUL @
                    contents f1 @ contents f2 @ contents f3 @ contents f4))
      else
        main sha256 g e =
          Inr (n1 + n2 + n3,
               appended open_wb
                 (''DFS_THREAT_DB_V1'' @ [NUL] @ replicate 8 NUL @
                  contents f1 @ contents f2 @ contents f3))"
  proof (cases "0 < TARGET_SIZE_BYTES - (n1 + n2 + n3)")
    case True
    with m q4 show ?thesis by (simp only: if_True) blast
  next
    case False
    with m show ?thesis by (simp only: if_False)
  qed
  from q1 q2 q3 len last show ?thesis by blast
qed

text \<open>
  Claim C3 as stated fails in its last part: the bytes written before the metadata phase
  include the header, and \<open>remaining\<close> does not take them off. On the all-zero tape
  224,000,025 bytes are in the file when the metadata phase starts; the filler is called
  with \<open>TARGET_SIZE_BYTES - 224000000\<close> and returns 562,432,006, where a call with
  \<open>TARGET_SIZE_BYTES - 224000025\<close> returns 562,431,981.
\<close>

theorem main_remaining_counterexample:
  "main sample_digest (zero_tape, 0) (sample_entropy, 0) =
     Inr (224000000 + 562432006,
          fold fwrite zero_run_blocks
            (appended open_wb (''DFS_THREAT_DB_V1'' @ [NUL] @ replicate 8 NUL @ zero_run_records))) \<and>
   length (''DFS_THREAT_DB_V1'' @ [NUL] @ replicate 8 NUL @ zero_run_records) = 224000025 \<and>
   generate_metadata_blocks (TARGET_SIZE_BYTES - 224000000) (sample_entropy, 0)
       (appended open_wb (''DFS_THREAT_DB_V1'' @ [NUL] @ replicate 8 NUL @ zero_run_records)) =
     Inr (562432006, (sample_entropy, 561608128),
          fold fwrite zero_run_blocks
            (appended open_wb (''DFS_THREAT_DB_V1'' @ [NUL] @ replicate 8 NUL @ zero_run_records))) \<and>
   generate_metadata_blocks (TARGET_SIZE_BYTES - 224000025) (sample_entropy, 0)
       (appended open_wb (''DFS_THREAT_DB_V1'' @ [NUL] @ replicate 8 NUL @ zero_run_records)) =
     Inr (562431981, (sample_entropy, 561608103),
          fold fwrite (zero_run_full_blocks @ [meta_block sample_entropy 561606080 2023])
            (appended open_wb (''DFS_THREAT_DB_V1'' @ [NUL] @ replicate 8 NUL @ zero_run_records)))"
proof (intro conjI)
  show "main sample_digest (zero_tape, 0) (sample_entropy, 0) =
     Inr (224000000 + 562432006,
          fold fwrite zero_run_blocks
            (appended open_wb (''DFS_THREAT_DB_V1'' @ [NUL] @ replicate 8 NUL @ zero_run_records)))"
    by (simp add: main_zero_run fold_fwrite_at_end at_end_appended appended_appended
        del: length_concat)
  show "length (''DFS_THREAT_DB_V1'' @ [NUL] @ replicate 8 NUL @ zero_run_records) = 224000025"
    by (simp add: length_zero_run_records)
  have "TARGET_SIZE_BYTES - 224000000 = 562432000" by (simp add: TARGET_SIZE_BYTES_def)
  then show "generate_metadata_blocks (TARGET_SIZE_BYTES - 224000000) (sample_entropy, 0)
       (appended open_wb (''DFS_THREAT_DB_V1'' @ [NUL] @ replicate 8 NUL @ zero_run_records)) =
     Inr (562432006, (sample_entropy, 561608128),
          fold fwrite zero_run_blocks
            (appended open_wb (''DFS_THREAT_DB_V1'' @ [NUL] @ replicate 8 NUL @ zero_run_records)))"
    by (simp only: generate_metadata_blocks_zero_run)
  have "TARGET_SIZE_BYTES - 224000025 = 562431975" by (simp add: TARGET_SIZE_BYTES_def)
  then show "generate_metadata_blocks (TARGET_SIZE_BYTES - 224000025) (sample_entropy, 0)
       (appended open_wb (''DFS_THREAT_DB_V1'' @ [NUL] @ replicate 8 NUL @ zero_run_records)) =
     Inr (562431981, (sample_entropy, 561608103),
          fold fwrite (zero_run_full_blocks @ [meta_block sample_entropy 561606080 2023])
            (appended open_wb (''DFS_THREAT_DB_V1'' @ [NUL] @ replicate 8 NUL @ zero_run_records)))"
    by (simp only: generate_metadata_blocks_zero_run_less)
qed

text \<open>
  Claim C2. For every \<open>remaining > 0\<close> the metadata filler returns at least
  \<open>remaining\<close>. In every run the final file has 25 bytes of header plus \<open>total\<close>
  bytes, which is at least the header plus what the three record phases wrote; when
  \<open>remaining = TARGET_SIZE_BYTES - (n1 + n2 + n3)\<close> is positive, \<open>total\<close> is at least the
  target, and otherwise the metadata phase is skipped: \<open>total\<close> is the sum of the three
  phases and the file is the header followed by their records.
\<close>

theorem metadata_never_decreases:
  "(0 < remaining \<longrightarrow>
      (\<exists>blocks e'.
         generate_metadata_blocks remaining e0 f =
           Inr (int (length (concat blocks)), e', fold fwrite blocks f) \<and>
         remaining \<le> int (length (concat blocks)))) \<and>
   (\<exists>n1 g1 f1 n2 g2 f2 n3 g3 f3 total f'.
      generate_phone_patterns 2500000 g open_wb = Inr (n1, g1, f1) \<and>
      generate_domain_patterns 2500000 g1 open_wb = Inr (n2, g2, f2) \<and>
      generate_phrase_signatures sha256 6500000 g2 open_wb = Inr (n3, g3, f3) \<and>
      main sha256 g e = Inr (total, f') \<and>
      int (length (contents f')) = 25 + total \<and>
      25 + (n1 + n2 + n3) \<le> int (length (contents f')) \<and>
      (if 0 < TARGET_SIZE_BYTES - (n1 + n2 + n3)
       then TARGET_SIZE_BYTES \<le> total
       else total = n1 + n2 + n3 \<and>
            f' = appended open_wb
                   (''DFS_THREAT_DB_V1'' @ [NUL] @ replicate 8 NUL @
                    contents f1 @ contents f2 @ contents f3)))"
proof (intro conjI impI)
  assume "0 < remaining"
  then show "\<exists>blocks e'.
         generate_metadata_blocks remaining e0 f =
           Inr (int (length (concat blocks)), e', fold fwrite blocks f) \<and>
         remaining \<le> int (length (concat blocks))"
    by (rule generate_metadata_blocks_ge)
next
  from main_phases [of g sha256 e] obtain n1 g1 f1 n2 g2 f2 n3 g3 f3 n4 e4 f4 where
    q1: "generate_phone_patterns 2500000 g open_wb = Inr (n1, g1, f1)"
    and l1: "int (length (contents f1)) = n1"
    and q2: "generate_domain_patterns 2500000 g1 open_wb = Inr (n2, g2, f2)"
    and l2: "int (length (contents f2)) = n2"
    and q3: "generate_phrase_signatures sha256 6500000 g2 open_wb = Inr (n3, g3, f3)"
    and l3: "int (length (contents f3)) = n3"
    and q4: "generate_metadata_blocks (TARGET_SIZE_BYTES - (n1 + n2 + n3)) e open_wb =
       Inr (n4, e4, f4)"
    and l4: "int (length (contents f4)) = n4"
    and t: "n4 = (if 0 < TARGET_SIZE_BYTES - (n1 + n2 + n3)
           then fill_total (TARGET_SIZE_BYTES - (n1 + n2 + n3)) else 0)"
    and m: "main sha256 g e =
       (if 0 < TARGET_SIZE_BYTES - (n1 + n2 + n3)
        then Inr (n1 + n2 + n3 + n4,
               appended open_wb
                 (''DFS_THREAT_DB_V1'' @ [NUL] @ replicate 8 NUL @
                  contents f1 @ contents f2 @ contents f3 @ contents f4))
        else Inr (n1 + n2 + n3,
               appended open_wb
                 (''DFS_THREAT_DB_V1'' @ [NUL] @ replicate 8 NUL @
                  contents f1 @ contents f2 @ contents f3)))"
    by blast
  define T where "T = n1 + n2 + n3"
  have len3: "int (length (''DFS_THREAT_DB_V1'' @ [NUL] @ replicate 8 NUL @
      contents f1 @ contents f2 @ contents f3)) = 25 + T"
    using l1 l2 l3 by (simp add: T_def)
  have len4: "int (length (''DFS_THREAT_DB_V1'' @ [NUL] @ replicate 8 NUL @
      contents f1 @ contents f2 @ contents f3 @ contents f4)) = 25 + (T + n4)"
    using l1 l2 l3 l4 by (simp add: T_def)
  have n4: "0 \<le> n4" using l4 by linarith
  show "\<exists>n1 g1 f1 n2 g2 f2 n3 g3 f3 total f'.
      generate_phone_patterns 2500000 g open_wb = Inr (n1, g1, f1) \<and>
      generate_domain_patterns 2500000 g1 open_wb = Inr (n2, g2, f2) \<and>
      generate_phrase_signatures sha256 6500000 g2 open_wb = Inr (n3, g3, f3) \<and>
      main sha256 g e = Inr (total, f') \<and>
      int (length (contents f')) = 25 + total \<and>
      25 + (n1 + n2 + n3) \<le> int (length (contents f')) \<and>
      (if 0 < TARGET_SIZE_BYTES - (n1 + n2 + n3)
       then TARGET_SIZE_BYTES \<le> total
       else total = n1 + n2 + n3 \<and>
            f' = appended open_wb
                   (''DFS_THREAT_DB_V1'' @ [NUL] @ replicate 8 NUL @
                    contents f1 @ contents f2 @ contents f3))"
  proof (cases "0 < TARGET_SIZE_BYTES - (n1 + n2 + n3)")
    case True
    let ?f = "appended open_wb
       (''DFS_THREAT_DB_V1'' @ [NUL] @ replicate 8 NUL @
        contents f1 @ contents f2 @ contents f3 @ contents f4)"
    have run: "main sha256 g e = Inr (T + n4, ?f)"
      using m True by (simp only: if_True T_def)
    have "n4 = fill_total (TARGET_SIZE_BYTES - T)" using t True by (simp only: if_True T_def)
    with fill_total_ge [of "TARGET_SIZE_BYTES - T"] have ge: "TARGET_SIZE_BYTES \<le> T + n4"
      by linarith
    have a: "int (length (contents ?f)) = 25 + (T + n4)"
      unfolding contents_appended_open_wb by (rule len4)
    have b: "25 + T \<le> int (length (contents ?f))" using a n4 by linarith
    have c: "if 0 < TARGET_SIZE_BYTES - T then TARGET_SIZE_BYTES \<le> T + n4
       else T + n4 = T \<and> ?f = appended open_wb
          (''DFS_THREAT_DB_V1'' @ [NUL] @ replicate 8 NUL @
           contents f1 @ contents f2 @ contents f3)"
      using True ge by (simp only: T_def if_True)
    from q1 q2 q3 run a b c show ?thesis unfolding T_def by blast
  next
    case False
    let ?f = "appended open_wb
       (''DFS_THREAT_DB_V1'' @ [NUL] @ replicate 8 NUL @
        contents f1 @ contents f2 @ contents f3)"
    have run: "main sha256 g e = Inr (T, ?f)"
      using m False by (simp only: if_False T_def)
    have a: "int (length (contents ?f)) = 25 + T"
      unfolding contents_appended_open_wb by (rule len3)
    have b: "25 + T \<le> int (length (contents ?f))" using a by linarith
    have c: "if 0 < TARGET_SIZE_BYTES - T then TARGET_SIZE_BYTES \<le> T
       else T = T \<and> ?f = ?f"
      using False by (simp only: T_def if_False)
    from q1 q2 q3 run a b c show ?thesis unfolding T_def by blast
  qed
qed

theorem metadata_never_decreases_witness:
  "(0::int) < 2 \<and>
   generate_metadata_blocks 2 (sample_entropy, 0) open_wb =
     Inr (8, (sample_entropy, 2), fold fwrite [''META:01'' @ [newline]] open_wb) \<and>
   (2::int) \<le> 8"
  using metadata_never_decreases [of 2 "(sample_entropy, 0)" open_wb]
  by (simp add: generate_metadata_blocks_def metadata_loop_step metadata_loop_stop
      meta_block_def sample_entropy_def upt_conv_Cons)

text \<open>
  Claim C7. The file starts with a 25-byte header: the 17-byte tag
  \<open>DFS_THREAT_DB_V1\<close> plus a NUL byte, then the eight bytes of
  \<open>struct.pack("<Q", 0)\<close>, which are all zero; the records follow from offset 25, and
  their length is the total that \<open>main\<close> computes.
\<close>

theorem main_header:
  "struct_pack_Q 0 = Inr (replicate 8 NUL) \<and>
   (\<exists>total f' records.
      main sha256 g e = Inr (total, f') \<and>
      contents f' = (''DFS_THREAT_DB_V1'' @ [NUL]) @ replicate 8 NUL @ records \<and>
      length (''DFS_THREAT_DB_V1'' @ [NUL]) = 17 \<and>
      take 17 (contents f') = ''DFS_THREAT_DB_V1'' @ [NUL] \<and>
      take 8 (drop 17 (contents f')) = replicate 8 NUL \<and>
      drop 25 (contents f') = records \<and>
      int (length records) = total)"
proof -
  from main_phases [of g sha256 e] obtain n1 g1 f1 n2 g2 f2 n3 g3 f3 n4 e4 f4 where
    q1: "generate_phone_patterns 2500000 g open_wb = Inr (n1, g1, f1)"
    and l1: "int (length (contents f1)) = n1"
    and q2: "generate_domain_patterns 2500000 g1 open_wb = Inr (n2, g2, f2)"
    and l2: "int (length (contents f2)) = n2"
    and q3: "generate_phrase_signatures sha256 6500000 g2 open_wb = Inr (n3, g3, f3)"
    and l3: "int (length (contents f3)) = n3"
    and q4: "generate_metadata_blocks (TARGET_SIZE_BYTES - (n1 + n2 + n3)) e open_wb =
       Inr (n4, e4, f4)"
    and l4: "int (length (contents f4)) = n4"
    and t: "n4 = (if 0 < TARGET_SIZE_BYTES - (n1 + n2 + n3)
           then fill_total (TARGET_SIZE_BYTES - (n1 + n2 + n3)) else 0)"
    and m: "main sha256 g e =
       (if 0 < TARGET_SIZE_BYTES - (n1 + n2 + n3)
        then Inr (n1 + n2 + n3 + n4,
               appended open_wb
                 (''DFS_THREAT_DB_V1'' @ [NUL] @ replicate 8 NUL @
                  contents f1 @ contents f2 @ contents f3 @ contents f4))
        else Inr (n1 + n2 + n3,
               appended open_wb
                 (''DFS_THREAT_DB_V1'' @ [NUL] @ replicate 8 NUL @
                  contents f1 @ contents f2 @ contents f3)))"
    by blast
  define records where "records =
     (if 0 < TARGET_SIZE_BYTES - (n1 + n2 + n3)
      then contents f1 @ contents f2 @ contents f3 @ contents f4
      else contents f1 @ contents f2 @ contents f3)"
  define total where "total =
     (if 0 < TARGET_SIZE_BYTES - (n1 + n2 + n3) then n1 + n2 + n3 + n4 else n1 + n2 + n3)"
  define f' where "f' = appended open_wb
     (''DFS_THREAT_DB_V1'' @ [NUL] @ replicate 8 NUL @ records)"
  have run: "main sha256 g e = Inr (total, f')"
    using m by (simp add: records_def total_def f'_def)
  have c: "contents f' = (''DFS_THREAT_DB_V1'' @ [NUL]) @ replicate 8 NUL @ records"
    by (simp add: f'_def contents_appended_open_wb)
  have len: "int (length records) = total"
    using l1 l2 l3 l4 by (simp add: records_def total_def)
  have parts: "take 17 (contents f') = ''DFS_THREAT_DB_V1'' @ [NUL]"
    "take 8 (drop 17 (contents f')) = replicate 8 NUL"
    "drop 25 (contents f') = records"
    unfolding c by simp_all
  have "length (''DFS_THREAT_DB_V1'' @ [NUL]) = 17" by simp
  with run c parts len have "\<exists>total f' records.
      main sha256 g e = Inr (total, f') \<and>
      contents f' = (''DFS_THREAT_DB_V1'' @ [NUL]) @ replicate 8 NUL @ records \<and>
      length (''DFS_THREAT_DB_V1'' @ [NUL]) = 17 \<and>
      take 17 (contents f') = ''DFS_THREAT_DB_V1'' @ [NUL] \<and>
      take 8 (drop 17 (contents f')) = replicate 8 NUL \<and>
      drop 25 (contents f') = records \<and>
      int (length records) = total"
    by blast
  with struct_pack_Q_zero show ?thesis by blast
qed


text \<open>
  Claim C8. In the final file the eight bytes at offsets 17 to 24 are zero. The header is
  written to the empty file and leaves the position at its end; a write at the end of
  the file, and so each generator started at the end of the file, only adds bytes after
  those that are there and leaves the position at the end again.
\<close>

theorem reserved_field_untouched:
  "(\<exists>total f'. main sha256 g e = Inr (total, f') \<and>
      take 8 (drop 17 (contents f')) = replicate 8 NUL \<and> at_end f') \<and>
   at_end (fwrite (''DFS_THREAT_DB_V1'' @ [NUL] @ replicate 8 NUL) open_wb) \<and>
   (at_end f \<longrightarrow>
      at_end (fwrite d f) \<and> contents (fwrite d f) = contents f @ d \<and>
      (\<exists>n g' f' rest. generate_phone_patterns count g0 f = Inr (n, g', f') \<and>
         contents f' = contents f @ rest \<and> at_end f') \<and>
      (\<exists>n g' f' rest. generate_domain_patterns count g0 f = Inr (n, g', f') \<and>
         contents f' = contents f @ rest \<and> at_end f') \<and>
      (\<exists>n g' f' rest. generate_phrase_signatures sha256 count g0 f = Inr (n, g', f') \<and>
         contents f' = contents f @ rest \<and> at_end f') \<and>
      (\<exists>n e' f' rest. generate_metadata_blocks remaining e0 f = Inr (n, e', f') \<and>
         contents f' = contents f @ rest \<and> at_end f'))"
proof (intro conjI impI)
  from main_phases [of g sha256 e] obtain n1 g1 f1 n2 g2 f2 n3 g3 f3 n4 e4 f4 where
    q1: "generate_phone_patterns 2500000 g open_wb = Inr (n1, g1, f1)"
    and l1: "int (length (contents f1)) = n1"
    and q2: "generate_domain_patterns 2500000 g1 open_wb = Inr (n2, g2, f2)"
    and l2: "int (length (contents f2)) = n2"
    and q3: "generate_phrase_signatures sha256 6500000 g2 open_wb = Inr (n3, g3, f3)"
    and l3: "int (length (contents f3)) = n3"
    and q4: "generate_metadata_blocks (TARGET_SIZE_BYTES - (n1 + n2 + n3)) e open_wb =
       Inr (n4, e4, f4)"
    and l4: "int (length (contents f4)) = n4"
    and t: "n4 = (if 0 < TARGET_SIZE_BYTES - (n1 + n2 + n3)
           then fill_total (TARGET_SIZE_BYTES - (n1 + n2 + n3)) else 0)"
    and m: "main sha256 g e =
       (if 0 < TARGET_SIZE_BYTES - (n1 + n2 + n3)
        then Inr (n1 + n2 + n3 + n4,
               appended open_wb
                 (''DFS_THREAT_DB_V1'' @ [NUL] @ replicate 8 NUL @
                  contents f1 @ contents f2 @ contents f3 @ contents f4))
        else Inr (n1 + n2 + n3,
               appended open_wb
                 (''DFS_THREAT_DB_V1'' @ [NUL] @ replicate 8 NUL @
                  contents f1 @ contents f2 @ contents f3)))"
    by blast
  define records where "records =
     (if 0 < TARGET_SIZE_BYTES - (n1 + n2 + n3)
      then contents f1 @ contents f2 @ contents f3 @ contents f4
      else contents f1 @ contents f2 @ contents f3)"
  define total where "total =
     (if 0 < TARGET_SIZE_BYTES - (n1 + n2 + n3) then n1 + n2 + n3 + n4 else n1 + n2 + n3)"
  define f' where "f' = appended open_wb
     (''DFS_THREAT_DB_V1'' @ [NUL] @ replicate 8 NUL @ records)"
  have run: "main sha256 g e = Inr (total, f')"
    using m by (simp add: records_def total_def f'_def)
  have "take 8 (drop 17 (contents f')) = replicate 8 NUL"
    by (simp add: f'_def contents_appended_open_wb)
  moreover have "at_end f'" unfolding f'_def by (rule at_end_appended)
  ultimately show "\<exists>total f'. main sha256 g e = Inr (total, f') \<and>
      take 8 (drop 17 (contents f')) = replicate 8 NUL \<and> at_end f'"
    using run by blast
next
  show "at_end (fwrite (''DFS_THREAT_DB_V1'' @ [NUL] @ replicate 8 NUL) open_wb)"
    by (simp add: fwrite_at_end at_end_open_wb at_end_appended)
next
  assume f: "at_end f"
  show "at_end (fwrite d f)" by (simp add: fwrite_at_end f at_end_appended)
  show "contents (fwrite d f) = contents f @ d" by (simp add: fwrite_at_end f appended_def)
  show "\<exists>n g' f' rest. generate_phone_patterns count g0 f = Inr (n, g', f') \<and>
         contents f' = contents f @ rest \<and> at_end f'"
    using generate_phone_patterns_frame [of count g0] write_appends [OF f] by metis
  show "\<exists>n g' f' rest. generate_domain_patterns count g0 f = Inr (n, g', f') \<and>
         contents f' = contents f @ rest \<and> at_end f'"
    using generate_domain_patterns_frame [of count g0] write_appends [OF f] by metis
  show "\<exists>n g' f' rest. generate_phrase_signatures sha256 count g0 f = Inr (n, g', f') \<and>
         contents f' = contents f @ rest \<and> at_end f'"
    using generate_phrase_signatures_frame [of sha256 count g0] write_appends [OF f] by metis
  show "\<exists>n e' f' rest. generate_metadata_blocks remaining e0 f = Inr (n, e', f') \<and>
         contents f' = contents f @ rest \<and> at_end f'"
    using generate_metadata_blocks_frame [of remaining e0] write_appends [OF f] by metis
qed

theorem reserved_field_untouched_witness:
  "at_end \<lparr>contents = ''abc'', pos = 3\<rparr> \<and>
   generate_metadata_blocks 1 (sample_entropy, 4) \<lparr>contents = ''abc'', pos = 3\<rparr> =
     Inr (7, (sample_entropy, 5), \<lparr>contents = ''abc'' @ ''META:4'' @ [newline], pos = 10\<rparr>) \<and>
   at_end \<lparr>contents = ''abc'' @ ''META:4'' @ [newline], pos = 10\<rparr> \<and>
   take 8 (drop 17
     (''DFS_THREAT_DB_V1'' @ [NUL] @ replicate 8 NUL @ zero_run_records @
      concat zero_run_blocks)) = replicate 8 NUL"
  using reserved_field_untouched [of sample_digest "(zero_tape, 0)" "(sample_entropy, 0)"
      "\<lparr>contents = ''abc'', pos = 3\<rparr>" "[]" 0 "(zero_tape, 0)" 1 "(sample_entropy, 4)"]
  by (simp add: generate_metadata_blocks_def metadata_loop_step metadata_loop_stop
      meta_block_def fwrite_def sample_entropy_def at_end_def newline_def)

end
